theory Spec2Isabelle
  imports Main "HOL-Library.Word"
begin

section \<open>The map assemblers of MapGenerator\<close>

text \<open>
  Two scripts stitch square tiles into one raster: \<^verbatim>\<open>assemble-original-map.py\<close> (an
  18 x 18 grid, column by column, tiles named by a running number) and
  \<^verbatim>\<open>assemble-v1-map.py\<close> (a 3 x 3 grid, row by row, tiles named \<^verbatim>\<open>{row}-{col}.png\<close>,
  followed by an upscale). Names shared by the two modules carry the suffix
  \<open>_original\<close> or \<open>_v1\<close>; \<open>TILE_SIZE\<close> is 1024 in both and is declared once.
\<close>

subsection \<open>Python's \<^verbatim>\<open>str\<close> of a non-negative integer\<close>

definition digit_char :: "nat \<Rightarrow> char" where
  "digit_char d =
     (if d = 0 then CHR ''0'' else if d = 1 then CHR ''1'' else if d = 2 then CHR ''2''
      else if d = 3 then CHR ''3'' else if d = 4 then CHR ''4'' else if d = 5 then CHR ''5''
      else if d = 6 then CHR ''6'' else if d = 7 then CHR ''7'' else if d = 8 then CHR ''8''
      else CHR ''9'')"

fun str :: "nat \<Rightarrow> string" where
  "str n = (if n < 10 then [digit_char n] else str (n div 10) @ [digit_char (n mod 10)])"

declare str.simps [simp del]

text \<open>\<^verbatim>\<open>s.endswith(suffix)\<close>\<close>

definition endswith :: "string \<Rightarrow> string \<Rightarrow> bool" where
  "endswith s suf \<longleftrightarrow> length suf \<le> length s \<and> drop (length s - length suf) s = suf"

subsection \<open>Pillow images\<close>

text \<open>
  An image of mode RGB: its size and one pixel of three 8-bit channels for every
  coordinate inside it. The pixel data is a function of the coordinates; what it
  returns outside the size is not part of the image. A decoded tile is taken in the
  mode of the canvas, to which \<^verbatim>\<open>paste\<close> converts it.
\<close>

type_synonym rgb = "8 word \<times> 8 word \<times> 8 word"

definition black :: rgb where
  "black = (0, 0, 0)"

record image =
  width :: nat
  height :: nat
  px :: "nat \<Rightarrow> nat \<Rightarrow> rgb"

text \<open>\<^verbatim>\<open>im.size\<close>\<close>

definition im_size :: "image \<Rightarrow> nat \<times> nat" where
  "im_size im = (width im, height im)"

text \<open>\<^verbatim>\<open>Image.new('RGB', size, color)\<close>\<close>

definition Image_new :: "nat \<times> nat \<Rightarrow> rgb \<Rightarrow> image" where
  "Image_new sz color = \<lparr>width = fst sz, height = snd sz, px = (\<lambda>x y. color)\<rparr>"

text \<open>
  \<^verbatim>\<open>im.resize(size, Image.LANCZOS)\<close> returns an image of exactly the requested size. The
  values of its pixels come from Pillow's Lanczos kernel, which is arithmetic outside
  this development: the filter is a parameter, a function from the source image and the
  requested size to the pixel data.
\<close>

type_synonym resampler = "image \<Rightarrow> nat \<times> nat \<Rightarrow> nat \<Rightarrow> nat \<Rightarrow> rgb"

definition resize :: "resampler \<Rightarrow> image \<Rightarrow> nat \<times> nat \<Rightarrow> image" where
  "resize resample im sz = \<lparr>width = fst sz, height = snd sz, px = resample im sz\<rparr>"

text \<open>
  \<^verbatim>\<open>im.paste(tile, (x, y))\<close>: the rectangle of the tile's size whose upper left corner
  is \<open>(x, y)\<close> is overwritten with the tile, clipped to the image. Nothing is blended.
\<close>

definition paste :: "image \<Rightarrow> image \<Rightarrow> nat \<times> nat \<Rightarrow> image" where
  "paste im tile box =
     im\<lparr>px := (\<lambda>x y.
        if fst box \<le> x \<and> x < fst box + width tile \<and> snd box \<le> y \<and> y < snd box + height tile
           \<and> x < width im \<and> y < height im
        then px tile (x - fst box) (y - snd box)
        else px im x y)\<rparr>"

subsection \<open>The file system and the process\<close>

text \<open>
  A name in the tile directory holds either something Pillow decodes or something on
  which \<^verbatim>\<open>Image.open\<close> raises (a corrupt file, a text file, a subdirectory).
\<close>

datatype tile_file = Decodable image | Undecodable

text \<open>What the path \<^verbatim>\<open>TILE_DIR\<close> names: nothing, something that is no directory, or a
  directory with its entries.\<close>

datatype dir_entry = Absent | Not_a_directory | Directory "(string \<times> tile_file) list"

datatype exn =
    UnidentifiedImageError string
  | FileNotFoundError string
  | NotADirectoryError
  | PermissionError

text \<open>
  The part of the world the scripts touch: the tile directory, the image stored at
  \<^verbatim>\<open>OUTPUT_FILE\<close> (PNG is lossless, so the stored image is the saved one), whether that
  path can be written, and the working directory that the error message prints.
\<close>

record world =
  tile_dir :: dir_entry
  output_file :: "image option"
  output_writable :: bool
  cwd :: string

text \<open>The file that \<^verbatim>\<open>os.path.join(TILE_DIR, name)\<close> names.\<close>

definition path_lookup :: "dir_entry \<Rightarrow> string \<Rightarrow> tile_file option" where
  "path_lookup d name = (case d of Directory entries \<Rightarrow> map_of entries name | _ \<Rightarrow> None)"

text \<open>\<^verbatim>\<open>os.path.exists(os.path.join(TILE_DIR, name))\<close>\<close>

definition os_path_exists :: "dir_entry \<Rightarrow> string \<Rightarrow> bool" where
  "os_path_exists d name \<longleftrightarrow> path_lookup d name \<noteq> None"

text \<open>\<^verbatim>\<open>Image.open(os.path.join(TILE_DIR, name))\<close>, with the decoding that Pillow defers
  to the first use of the pixels.\<close>

definition Image_open :: "dir_entry \<Rightarrow> string \<Rightarrow> exn + image" where
  "Image_open d name =
     (case path_lookup d name of
        None \<Rightarrow> Inl (FileNotFoundError name)
      | Some Undecodable \<Rightarrow> Inl (UnidentifiedImageError name)
      | Some (Decodable im) \<Rightarrow> Inr im)"

text \<open>\<^verbatim>\<open>os.listdir(TILE_DIR)\<close>\<close>

definition os_listdir :: "dir_entry \<Rightarrow> exn + string list" where
  "os_listdir d =
     (case d of
        Absent \<Rightarrow> Inl (FileNotFoundError [])
      | Not_a_directory \<Rightarrow> Inl NotADirectoryError
      | Directory entries \<Rightarrow> Inr (map fst entries))"

text \<open>\<^verbatim>\<open>output_image.save(OUTPUT_FILE, "PNG", optimize=False)\<close>\<close>

definition Image_save :: "world \<Rightarrow> image \<Rightarrow> exn + world" where
  "Image_save w im =
     (if output_writable w then Inr (w\<lparr>output_file := Some im\<rparr>) else Inl PermissionError)"

text \<open>
  A printed line is the f-string of the source with the values it interpolates, in
  order. \<open>Sorted names\<close> stands for \<^verbatim>\<open>sorted(names)\<close> and \<open>Png_size_mb im\<close> for the
  size on disk of the PNG encoding of \<open>im\<close>.
  \<open>Next_steps\<close> is the fixed trailer of nine lines that \<^verbatim>\<open>assemble-v1-map.py\<close> prints.
\<close>

datatype arg =
    N nat
  | S string
  | Size "nat \<times> nat"
  | Ns "nat list"
  | Sorted "string list"
  | Png_size_mb image

datatype out_line = Msg string "arg list" | Next_steps

text \<open>How a run of a script ends: \<^verbatim>\<open>sys.exit\<close> or falling off the end, with what was
  printed, or an exception nobody catches (the interpreter prints a traceback and the
  exit status is 1). What a crashed run had printed before is not recorded.\<close>

datatype outcome = Exited nat "out_line list" world | Crashed exn world

fun exit_code :: "outcome \<Rightarrow> nat" where
  "exit_code (Exited n out w) = n"
| "exit_code (Crashed e w) = 1"

fun final_world :: "outcome \<Rightarrow> world" where
  "final_world (Exited n out w) = w"
| "final_world (Crashed e w) = w"

text \<open>A \<^verbatim>\<open>for\<close> loop whose body may raise: the first exception ends the loop.\<close>

fun for_loop :: "'a list \<Rightarrow> ('a \<Rightarrow> 's \<Rightarrow> exn + 's) \<Rightarrow> 's \<Rightarrow> exn + 's" where
  "for_loop [] body st = Inr st"
| "for_loop (x # xs) body st =
     (case body x st of Inl e \<Rightarrow> Inl e | Inr st' \<Rightarrow> for_loop xs body st')"

text \<open>The local variables that both \<^verbatim>\<open>assemble_map\<close> functions keep, and what they have
  printed.\<close>

record canvas_state =
  output_image :: image
  tiles_missing :: nat
  stdout :: "out_line list"

definition TILE_SIZE :: nat where
  "TILE_SIZE = 1024"

subsection \<open>\<^verbatim>\<open>assemble-original-map.py\<close>\<close>

definition TILE_DIR_original :: string where
  "TILE_DIR_original = ''original-map''"

definition GRID_SIZE :: nat where
  "GRID_SIZE = 18"

definition OUTPUT_SIZE :: nat where
  "OUTPUT_SIZE = TILE_SIZE * GRID_SIZE"

definition START_TILE :: nat where
  "START_TILE = 75879"

definition END_TILE :: nat where
  "END_TILE = 76202"

definition MISSING_TILES :: "nat list" where
  "MISSING_TILES = [76009, 76027]"

definition OUTPUT_FILE_original :: string where
  "OUTPUT_FILE_original = ''original-map-18432x18432.png''"

definition create_blank_tile :: image where
  "create_blank_tile = Image_new (TILE_SIZE, TILE_SIZE) black"

record state_original = canvas_state +
  tile_num :: nat
  tiles_processed :: nat

text \<open>Lines 50 to 72: the tile of one cell, a placeholder or the file's image.\<close>

definition load_tile_original ::
  "resampler \<Rightarrow> dir_entry \<Rightarrow> nat \<Rightarrow> nat \<Rightarrow> state_original \<Rightarrow> exn + image \<times> state_original"
where
  "load_tile_original LANCZOS d col row st =
     (let tile_filename = str (tile_num st) @ ''.jpg'' in
      if tile_num st \<in> set MISSING_TILES then
        Inr (create_blank_tile,
             st\<lparr>stdout := stdout st @
                   [Msg ''  Missing tile {tile_num} at column {col+1}, row {row+1} - using black placeholder''
                      [N (tile_num st), N (col + 1), N (row + 1)]],
                tiles_missing := tiles_missing st + 1\<rparr>)
      else if os_path_exists d tile_filename then
        (case Image_open d tile_filename of
           Inl e \<Rightarrow> Inl e
         | Inr tile \<Rightarrow>
             if im_size tile \<noteq> (TILE_SIZE, TILE_SIZE) then
               Inr (resize LANCZOS tile (TILE_SIZE, TILE_SIZE),
                    st\<lparr>stdout := stdout st @
                          [Msg ''  Warning: tile {tile_num} has unexpected size {tile.size}, resizing...''
                             [N (tile_num st), Size (im_size tile)]],
                       tiles_processed := tiles_processed st + 1\<rparr>)
             else Inr (tile, st\<lparr>tiles_processed := tiles_processed st + 1\<rparr>))
      else
        Inr (create_blank_tile,
             st\<lparr>stdout := stdout st @
                   [Msg ''  Warning: tile {tile_num} not found at {tile_path} - using black placeholder''
                      [N (tile_num st), S (TILE_DIR_original @ ''/'' @ tile_filename)]],
                tiles_missing := tiles_missing st + 1\<rparr>))"

text \<open>Lines 50 to 81: the body of the inner loop.\<close>

definition cell_original ::
  "resampler \<Rightarrow> dir_entry \<Rightarrow> nat \<Rightarrow> nat \<Rightarrow> state_original \<Rightarrow> exn + state_original"
where
  "cell_original LANCZOS d col row st =
     (case load_tile_original LANCZOS d col row st of
        Inl e \<Rightarrow> Inl e
      | Inr (tile, st1) \<Rightarrow>
          let x_offset = col * TILE_SIZE;
              y_offset = row * TILE_SIZE;
              st2 = st1\<lparr>output_image := paste (output_image st1) tile (x_offset, y_offset)\<rparr>;
              st3 = (if (tiles_processed st2 + tiles_missing st2) mod 50 = 0
                     then st2\<lparr>stdout := stdout st2 @
                            [Msg ''  Processed {tiles_processed + tiles_missing}/{GRID_SIZE * GRID_SIZE} tiles...''
                               [N (tiles_processed st2 + tiles_missing st2), N (GRID_SIZE * GRID_SIZE)]]\<rparr>
                     else st2)
          in Inr (st3\<lparr>tile_num := tile_num st3 + 1\<rparr>))"

text \<open>Lines 35 to 45: what is printed first, the black canvas and the counters.\<close>

definition init_original :: state_original where
  "init_original =
     \<lparr>output_image = Image_new (OUTPUT_SIZE, OUTPUT_SIZE) black,
      tiles_missing = 0,
      stdout =
        [Msg ''Assembling {GRID_SIZE}x{GRID_SIZE} map from {TILE_DIR}/''
           [N GRID_SIZE, N GRID_SIZE, S TILE_DIR_original],
         Msg ''Output size: {OUTPUT_SIZE}x{OUTPUT_SIZE} pixels'' [N OUTPUT_SIZE, N OUTPUT_SIZE],
         Msg ''Missing tiles: {MISSING_TILES}'' [Ns MISSING_TILES],
         Msg [] []],
      tile_num = START_TILE,
      tiles_processed = 0\<rparr>"

text \<open>Lines 41 to 81: the two nested loops, columns outside and rows inside.\<close>

definition traverse_original :: "resampler \<Rightarrow> dir_entry \<Rightarrow> exn + state_original" where
  "traverse_original LANCZOS d =
     for_loop [0..<GRID_SIZE]
       (\<lambda>col. for_loop [0..<GRID_SIZE] (\<lambda>row. cell_original LANCZOS d col row))
       init_original"

definition assemble_map_original :: "resampler \<Rightarrow> world \<Rightarrow> exn + out_line list \<times> world" where
  "assemble_map_original LANCZOS w =
     (case traverse_original LANCZOS (tile_dir w) of
        Inl e \<Rightarrow> Inl e
      | Inr st \<Rightarrow>
          (case Image_save w (output_image st) of
             Inl e \<Rightarrow> Inl e
           | Inr w' \<Rightarrow>
               Inr (stdout st @
                    [Msg [] [],
                     Msg ''Assembly complete!'' [],
                     Msg ''  Tiles processed: {tiles_processed}'' [N (tiles_processed st)],
                     Msg ''  Missing/placeholder tiles: {tiles_missing}'' [N (tiles_missing st)],
                     Msg ''  Total tiles: {tiles_processed + tiles_missing}/{GRID_SIZE * GRID_SIZE}''
                       [N (tiles_processed st + tiles_missing st), N (GRID_SIZE * GRID_SIZE)],
                     Msg [] [],
                     Msg ''Saving to {OUTPUT_FILE}...'' [S OUTPUT_FILE_original],
                     Msg ''Saved! File size: {file_size_mb:.2f} MB'' [Png_size_mb (output_image st)],
                     Msg [] [],
                     Msg ''Output: {OUTPUT_FILE}'' [S OUTPUT_FILE_original],
                     Msg ''Dimensions: {output_image.size[0]}x{output_image.size[1]} pixels''
                       [N (width (output_image st)), N (height (output_image st))]],
                    w')))"

text \<open>Lines 101 to 114: the script.\<close>

definition main_original :: "resampler \<Rightarrow> world \<Rightarrow> outcome" where
  "main_original LANCZOS w =
     (if tile_dir w = Absent then
        Exited 1
          [Msg ''Error: Tile directory '{TILE_DIR}' not found!'' [S TILE_DIR_original],
           Msg ''Current directory: {os.getcwd()}'' [S (cwd w)]]
          w
      else
        (case os_listdir (tile_dir w) of
           Inl e \<Rightarrow> Crashed e w
         | Inr names \<Rightarrow>
             let available_tiles = length (filter (\<lambda>f. endswith f ''.jpg'') names) in
             (case assemble_map_original LANCZOS w of
                Inl e \<Rightarrow> Crashed e w
              | Inr (out, w') \<Rightarrow>
                  Exited 0
                    ([Msg ''Found {available_tiles} tile files in {TILE_DIR}/''
                        [N available_tiles, S TILE_DIR_original],
                      Msg [] []] @ out)
                    w')))"

subsection \<open>\<^verbatim>\<open>assemble-v1-map.py\<close>\<close>

text \<open>\<^verbatim>\<open>TILE_DIR\<close> and \<^verbatim>\<open>OUTPUT_FILE\<close> are read from the environment when the module is
  loaded. The \<open>world\<close> says what these paths hold; the strings themselves are only
  printed.\<close>

record paths_v1 =
  TILE_DIR_v1 :: string
  OUTPUT_FILE_v1 :: string

definition GRID_ROWS :: nat where
  "GRID_ROWS = 3"

definition GRID_COLS :: nat where
  "GRID_COLS = 3"

definition ASSEMBLED_SIZE :: nat where
  "ASSEMBLED_SIZE = TILE_SIZE * GRID_COLS"

definition GAME_SIZE :: nat where
  "GAME_SIZE = 6144"

record state_v1 = canvas_state +
  tiles_loaded :: nat

text \<open>Lines 51 to 67: the body of the inner loop. The loops call it with \<open>row\<close> and
  \<open>col\<close> from 1 on, so the subtractions never go below zero.\<close>

definition cell_v1 ::
  "resampler \<Rightarrow> dir_entry \<Rightarrow> nat \<Rightarrow> nat \<Rightarrow> state_v1 \<Rightarrow> exn + state_v1"
where
  "cell_v1 LANCZOS d row col st =
     (let tile_filename = str row @ ''-'' @ str col @ ''.png'';
          x_offset = (col - 1) * TILE_SIZE;
          y_offset = (row - 1) * TILE_SIZE
      in
      if os_path_exists d tile_filename then
        (case Image_open d tile_filename of
           Inl e \<Rightarrow> Inl e
         | Inr tile \<Rightarrow>
             let st1 = (if im_size tile \<noteq> (TILE_SIZE, TILE_SIZE)
                        then st\<lparr>stdout := stdout st @
                               [Msg ''  Warning: {tile_filename} has size {tile.size}, resizing to {TILE_SIZE}x{TILE_SIZE}''
                                  [S tile_filename, Size (im_size tile), N TILE_SIZE, N TILE_SIZE]]\<rparr>
                        else st);
                 tile1 = (if im_size tile \<noteq> (TILE_SIZE, TILE_SIZE)
                          then resize LANCZOS tile (TILE_SIZE, TILE_SIZE)
                          else tile)
             in Inr (st1\<lparr>output_image := paste (output_image st1) tile1 (x_offset, y_offset),
                         tiles_loaded := tiles_loaded st1 + 1,
                         stdout := stdout st1 @
                           [Msg ''  Loaded {tile_filename} -> ({x_offset}, {y_offset})''
                              [S tile_filename, N x_offset, N y_offset]]\<rparr>))
      else
        Inr (st\<lparr>stdout := stdout st @
                   [Msg ''  Missing: {tile_filename} -> using black placeholder'' [S tile_filename]],
                tiles_missing := tiles_missing st + 1\<rparr>))"

text \<open>Lines 39 to 47: what is printed first, the black canvas and the counters.\<close>

definition init_v1 :: "paths_v1 \<Rightarrow> state_v1" where
  "init_v1 p =
     \<lparr>output_image = Image_new (ASSEMBLED_SIZE, ASSEMBLED_SIZE) black,
      tiles_missing = 0,
      stdout =
        [Msg ''Assembling {GRID_ROWS}x{GRID_COLS} v1 map from {TILE_DIR}/''
           [N GRID_ROWS, N GRID_COLS, S (TILE_DIR_v1 p)],
         Msg ''Assembled size: {ASSEMBLED_SIZE}x{ASSEMBLED_SIZE} pixels''
           [N ASSEMBLED_SIZE, N ASSEMBLED_SIZE],
         Msg ''Final output size: {GAME_SIZE}x{GAME_SIZE} pixels (2x Lanczos upscale)''
           [N GAME_SIZE, N GAME_SIZE],
         Msg [] []],
      tiles_loaded = 0\<rparr>"

text \<open>Lines 44 to 67: the two nested loops, rows outside and columns inside, both
  counted from 1.\<close>

definition traverse_v1 :: "resampler \<Rightarrow> paths_v1 \<Rightarrow> dir_entry \<Rightarrow> exn + state_v1" where
  "traverse_v1 LANCZOS p d =
     for_loop [1..<GRID_ROWS + 1]
       (\<lambda>row. for_loop [1..<GRID_COLS + 1] (\<lambda>col. cell_v1 LANCZOS d row col))
       (init_v1 p)"

definition assemble_map_v1 ::
  "resampler \<Rightarrow> paths_v1 \<Rightarrow> world \<Rightarrow> exn + out_line list \<times> world"
where
  "assemble_map_v1 LANCZOS p w =
     (case traverse_v1 LANCZOS p (tile_dir w) of
        Inl e \<Rightarrow> Inl e
      | Inr st \<Rightarrow>
          let upscaled = resize LANCZOS (output_image st) (GAME_SIZE, GAME_SIZE) in
          (case Image_save w upscaled of
             Inl e \<Rightarrow> Inl e
           | Inr w' \<Rightarrow>
               Inr (stdout st @
                    [Msg [] [],
                     Msg ''Assembly complete!'' [],
                     Msg ''  Tiles loaded: {tiles_loaded}'' [N (tiles_loaded st)],
                     Msg ''  Tiles missing: {tiles_missing}'' [N (tiles_missing st)],
                     Msg ''  Total: {tiles_loaded + tiles_missing}/{GRID_ROWS * GRID_COLS}''
                       [N (tiles_loaded st + tiles_missing st), N (GRID_ROWS * GRID_COLS)],
                     Msg [] [],
                     Msg ''Upscaling {ASSEMBLED_SIZE}x{ASSEMBLED_SIZE} -> {GAME_SIZE}x{GAME_SIZE} (Lanczos)...''
                       [N ASSEMBLED_SIZE, N ASSEMBLED_SIZE, N GAME_SIZE, N GAME_SIZE],
                     Msg ''Upscale complete.'' [],
                     Msg [] [],
                     Msg ''Saving to {OUTPUT_FILE}...'' [S (OUTPUT_FILE_v1 p)],
                     Msg ''Saved! File size: {file_size_mb:.2f} MB'' [Png_size_mb upscaled],
                     Msg ''Dimensions: {output_image.size[0]}x{output_image.size[1]} pixels''
                       [N (width upscaled), N (height upscaled)],
                     Msg [] [],
                     Next_steps],
                    w')))"

text \<open>Lines 101 to 112: the script.\<close>

definition main_v1 :: "resampler \<Rightarrow> paths_v1 \<Rightarrow> world \<Rightarrow> outcome" where
  "main_v1 LANCZOS p w =
     (if tile_dir w = Absent then
        Exited 1
          [Msg ''Error: Tile directory '{TILE_DIR}' not found!'' [S (TILE_DIR_v1 p)],
           Msg ''Current directory: {os.getcwd()}'' [S (cwd w)]]
          w
      else
        (case os_listdir (tile_dir w) of
           Inl e \<Rightarrow> Crashed e w
         | Inr names \<Rightarrow>
             let available_tiles = filter (\<lambda>f. endswith f ''.png'') names in
             (case assemble_map_v1 LANCZOS p w of
                Inl e \<Rightarrow> Crashed e w
              | Inr (out, w') \<Rightarrow>
                  Exited 0
                    ([Msg ''Found {len(available_tiles)} tile files in {TILE_DIR}/''
                        [N (length available_tiles), S (TILE_DIR_v1 p)],
                      Msg ''Files: {sorted(available_tiles)}'' [Sorted available_tiles],
                      Msg [] []] @ out)
                    w')))"

subsection \<open>Vocabulary of the statements\<close>

text \<open>The pixels that a paste of a \<open>TILE_SIZE\<close> tile at the offsets
  \<open>(c * TILE_SIZE, r * TILE_SIZE)\<close> covers: the region of the cell in 0-based column \<open>c\<close>
  and 0-based row \<open>r\<close>.\<close>

definition in_cell :: "nat \<Rightarrow> nat \<Rightarrow> nat \<Rightarrow> nat \<Rightarrow> bool" where
  "in_cell c r x y \<longleftrightarrow>
     c * TILE_SIZE \<le> x \<and> x < c * TILE_SIZE + TILE_SIZE \<and>
     r * TILE_SIZE \<le> y \<and> y < r * TILE_SIZE + TILE_SIZE"

subsection \<open>Concrete inputs\<close>

text \<open>A resampler to run the scripts on concrete inputs: nearest neighbour. The theorems
  below hold for every resampler.\<close>

definition nearest :: resampler where
  "nearest im sz = (\<lambda>x y. px im (x * width im div fst sz) (y * height im div snd sz))"

definition example_paths :: paths_v1 where
  "example_paths = \<lparr>TILE_DIR_v1 = ''/app/tiles-v1-source'', OUTPUT_FILE_v1 = ''/app/v1-map-6144x6144.png''\<rparr>"

text \<open>A world whose tile directory exists and is empty.\<close>

definition empty_world :: world where
  "empty_world =
     \<lparr>tile_dir = Directory [], output_file = None, output_writable = True, cwd = ''/app''\<rparr>"

text \<open>No tile directory at all.\<close>

definition absent_world :: world where
  "absent_world =
     \<lparr>tile_dir = Absent, output_file = None, output_writable = True, cwd = ''/app''\<rparr>"

text \<open>The first tile of either grid is a file that does not decode.\<close>

definition corrupt_world :: world where
  "corrupt_world =
     \<lparr>tile_dir = Directory [(''75879.jpg'', Undecodable), (''1-1.png'', Undecodable)],
      output_file = None, output_writable = True, cwd = ''/app''\<rparr>"

text \<open>The first tile of either grid is a white image of 512 x 512 pixels.\<close>

definition small_tile :: image where
  "small_tile = Image_new (512, 512) (255, 255, 255)"

definition small_tile_world :: world where
  "small_tile_world =
     \<lparr>tile_dir = Directory [(''75879.jpg'', Decodable small_tile), (''1-1.png'', Decodable small_tile)],
      output_file = None, output_writable = True, cwd = ''/app''\<rparr>"

text \<open>A file that does not decode lies under the name of a tile of \<open>MISSING_TILES\<close>.\<close>

definition shadowed_dir :: dir_entry where
  "shadowed_dir = Directory [(''76009.jpg'', Undecodable)]"

text \<open>A directory with a stray file and no tile.\<close>

definition cluttered_world :: world where
  "cluttered_world =
     \<lparr>tile_dir = Directory [(''README'', Undecodable)],
      output_file = None, output_writable = True, cwd = ''/app''\<rparr>"

text \<open>A white tile of the right size, a directory that holds it under the names of the
  second tile of the first column of the one grid and of the middle tile of the other,
  and canvases that are white.\<close>

definition white :: rgb where
  "white = (255, 255, 255)"

definition white_tile :: image where
  "white_tile = Image_new (TILE_SIZE, TILE_SIZE) white"

definition one_tile_world :: world where
  "one_tile_world =
     \<lparr>tile_dir = Directory [(''75880.jpg'', Decodable white_tile), (''2-2.png'', Decodable white_tile)],
      output_file = None, output_writable = True, cwd = ''/app''\<rparr>"

definition white_state_original :: "nat \<Rightarrow> state_original" where
  "white_state_original n =
     init_original\<lparr>output_image := Image_new (OUTPUT_SIZE, OUTPUT_SIZE) white, tile_num := n\<rparr>"


section \<open>Properties\<close>

subsection \<open>Loops\<close>

lemma for_loop_append:
  "for_loop (xs @ ys) body st =
     (case for_loop xs body st of Inl e \<Rightarrow> Inl e | Inr st' \<Rightarrow> for_loop ys body st')"
  by (induction xs arbitrary: st) (auto split: sum.splits)

lemma for_loop_map:
  "for_loop (map f xs) body st = for_loop xs (\<lambda>x. body (f x)) st"
  by (induction xs arbitrary: st) (auto split: sum.splits)

lemma for_loop_product:
  "for_loop xs (\<lambda>x. for_loop ys (f x)) st = for_loop (List.product xs ys) (\<lambda>(x, y). f x y) st"
  by (induction xs arbitrary: st) (auto simp: for_loop_append for_loop_map split: sum.splits)

lemma for_loop_invariant:
  assumes "for_loop xs body st = Inr st'"
    and "P st"
    and "\<And>x s s'. x \<in> set xs \<Longrightarrow> P s \<Longrightarrow> body x s = Inr s' \<Longrightarrow> P s'"
  shows "P st'"
  using assms
proof (induction xs arbitrary: st)
  case Nil
  then show ?case by simp
next
  case (Cons x xs)
  from Cons.prems(1) obtain s where s: "body x st = Inr s" and rest: "for_loop xs body s = Inr st'"
    by (auto split: sum.splits)
  have "P s" using Cons.prems(2,3) s by auto
  with rest Cons.IH[of s] Cons.prems(3) show ?case by auto
qed

lemma paste_size [simp]:
  "width (paste im tile box) = width im" "height (paste im tile box) = height im"
  by (simp_all add: paste_def)

lemma px_paste:
  "px (paste im tile (x0, y0)) x y =
     (if x0 \<le> x \<and> x < x0 + width tile \<and> y0 \<le> y \<and> y < y0 + height tile
         \<and> x < width im \<and> y < height im
      then px tile (x - x0) (y - y0) else px im x y)"
  by (simp add: paste_def)

lemma TILE_SIZE_pos: "0 < TILE_SIZE"
  by (simp add: TILE_SIZE_def)

lemma region_unique:
  fixes c c' x T :: nat
  assumes "c * T \<le> x" "x < Suc c * T" "c' * T \<le> x" "x < Suc c' * T"
  shows "c = c'"
proof -
  have "x div T = c"
    by (rule div_nat_eqI) (use assms(1,2) in \<open>simp_all add: mult.commute\<close>)
  moreover have "x div T = c'"
    by (rule div_nat_eqI) (use assms(3,4) in \<open>simp_all add: mult.commute\<close>)
  ultimately show ?thesis by simp
qed

subsection \<open>The traversal of \<^verbatim>\<open>assemble-original-map.py\<close>\<close>

lemma load_tile_original_Inr:
  assumes "load_tile_original L d c r st = Inr (tile, st1)"
  shows "im_size tile = (TILE_SIZE, TILE_SIZE)" "output_image st1 = output_image st"
    "tile_num st1 = tile_num st"
  using assms
  by (auto simp: load_tile_original_def Let_def create_blank_tile_def Image_new_def im_size_def resize_def
      split: if_splits sum.splits)

lemma cell_original_Inr_ex:
  assumes "cell_original L d c r st = Inr st'"
  shows "\<exists>tile st1. load_tile_original L d c r st = Inr (tile, st1)
         \<and> output_image st' = paste (output_image st) tile (c * TILE_SIZE, r * TILE_SIZE)
         \<and> tile_num st' = tile_num st + 1"
proof (cases "load_tile_original L d c r st")
  case (Inl e)
  with assms show ?thesis by (simp add: cell_original_def)
next
  case (Inr p)
  obtain tile st1 where p: "p = (tile, st1)" by (cases p)
  from load_tile_original_Inr[OF Inr[unfolded p]]
  have "output_image st1 = output_image st" "tile_num st1 = tile_num st" by simp_all
  with assms Inr p show ?thesis
    by (simp add: cell_original_def Let_def split: if_splits) auto
qed

lemma cell_original_Inr:
  assumes "cell_original L d c r st = Inr st'"
  obtains tile st1 where "load_tile_original L d c r st = Inr (tile, st1)"
    and "output_image st' = paste (output_image st) tile (c * TILE_SIZE, r * TILE_SIZE)"
    and "tile_num st' = tile_num st + 1"
  using cell_original_Inr_ex[OF assms] by blast

lemma cell_original_size:
  assumes "cell_original L d c r st = Inr st'"
  shows "im_size (output_image st') = im_size (output_image st)"
  using assms by (elim cell_original_Inr) (simp add: im_size_def)

lemma cell_original_px_outside:
  assumes "cell_original L d c r st = Inr st'"
    and "\<not> (c * TILE_SIZE \<le> x \<and> x < Suc c * TILE_SIZE \<and> r * TILE_SIZE \<le> y \<and> y < Suc r * TILE_SIZE)"
  shows "px (output_image st') x y = px (output_image st) x y"
proof -
  from assms(1) obtain tile st1 where l: "load_tile_original L d c r st = Inr (tile, st1)"
    and o: "output_image st' = paste (output_image st) tile (c * TILE_SIZE, r * TILE_SIZE)"
    by (rule cell_original_Inr)
  from load_tile_original_Inr(1)[OF l] have "width tile = TILE_SIZE" "height tile = TILE_SIZE"
    by (simp_all add: im_size_def)
  with o assms(2) show ?thesis by (auto simp: px_paste)
qed

lemma cell_original_px_inside:
  assumes "cell_original L d c r st = Inr st'"
    and "load_tile_original L d c r st = Inr (tile, st1)"
    and "c * TILE_SIZE \<le> x" "x < Suc c * TILE_SIZE" "r * TILE_SIZE \<le> y" "y < Suc r * TILE_SIZE"
    and "x < width (output_image st)" "y < height (output_image st)"
  shows "px (output_image st') x y = px tile (x - c * TILE_SIZE) (y - r * TILE_SIZE)"
proof -
  from assms(1,2) have o: "output_image st' = paste (output_image st) tile (c * TILE_SIZE, r * TILE_SIZE)"
    by (auto elim!: cell_original_Inr)
  from load_tile_original_Inr(1)[OF assms(2)] have "width tile = TILE_SIZE" "height tile = TILE_SIZE"
    by (simp_all add: im_size_def)
  with o assms(3-) show ?thesis by (auto simp: px_paste)
qed

lemma loop_original_tile_num:
  assumes "for_loop cs (\<lambda>(c, r). cell_original L d c r) st = Inr st'"
  shows "tile_num st' = tile_num st + length cs"
  using assms
proof (induction cs arbitrary: st)
  case Nil
  then show ?case by simp
next
  case (Cons a cs)
  obtain c r where a: "a = (c, r)" by (cases a)
  from Cons.prems a obtain s where s: "cell_original L d c r st = Inr s"
    and rest: "for_loop cs (\<lambda>(c, r). cell_original L d c r) s = Inr st'"
    by (auto split: sum.splits)
  from s have "tile_num s = tile_num st + 1" by (rule cell_original_Inr)
  with Cons.IH[OF rest] show ?case by simp
qed

lemma loop_original_size:
  assumes "for_loop cs (\<lambda>(c, r). cell_original L d c r) st = Inr st'"
  shows "im_size (output_image st') = im_size (output_image st)"
proof (rule for_loop_invariant[OF assms, where P = "\<lambda>s. im_size (output_image s) = im_size (output_image st)"])
  show "im_size (output_image st) = im_size (output_image st)" ..
next
  fix a s s'
  assume P: "im_size (output_image s) = im_size (output_image st)"
    and step: "(case a of (c, r) \<Rightarrow> cell_original L d c r) s = Inr s'"
  obtain c r where cr: "a = (c, r)" by (cases a)
  from step cr have "cell_original L d c r s = Inr s'" by simp
  from cell_original_size[OF this] P
  show "im_size (output_image s') = im_size (output_image st)" by simp
qed

lemma loop_original_px_outside:
  assumes "for_loop cs (\<lambda>(c, r). cell_original L d c r) st = Inr st'"
    and "\<And>c r. (c, r) \<in> set cs \<Longrightarrow>
      \<not> (c * TILE_SIZE \<le> x \<and> x < Suc c * TILE_SIZE \<and> r * TILE_SIZE \<le> y \<and> y < Suc r * TILE_SIZE)"
  shows "px (output_image st') x y = px (output_image st) x y"
proof (rule for_loop_invariant[OF assms(1), where P = "\<lambda>s. px (output_image s) x y = px (output_image st) x y"])
  show "px (output_image st) x y = px (output_image st) x y" ..
next
  fix a s s'
  assume a: "a \<in> set cs" and P: "px (output_image s) x y = px (output_image st) x y"
    and step: "(case a of (c, r) \<Rightarrow> cell_original L d c r) s = Inr s'"
  obtain c r where cr: "a = (c, r)" by (cases a)
  from step cr have "cell_original L d c r s = Inr s'" by simp
  from cell_original_px_outside[OF this assms(2)] a cr P
  show "px (output_image s') x y = px (output_image st) x y" by simp
qed

lemma traverse_original_flat:
  "traverse_original L d =
     for_loop (List.product [0..<GRID_SIZE] [0..<GRID_SIZE]) (\<lambda>(c, r). cell_original L d c r)
       init_original"
  by (simp add: traverse_original_def for_loop_product)

lemma cells_nth:
  assumes "c < n" "r < m"
  shows "List.product [0..<n] [0..<m] ! (c * m + r) = (c, r)"
    and "c * m + r < length (List.product [0..<n] [0..<m])"
proof -
  have "c * m + r < Suc c * m" using assms by simp
  also have "\<dots> \<le> n * m" using assms(1) by (intro mult_le_mono1) simp
  finally have lt: "c * m + r < n * m" .
  then show "c * m + r < length (List.product [0..<n] [0..<m])" by simp
  from lt have "List.product [0..<n] [0..<m] ! (c * m + r)
      = ([0..<n] ! ((c * m + r) div m), [0..<m] ! ((c * m + r) mod m))"
    by (simp add: product_nth)
  also have "(c * m + r) div m = c" using assms(2) by simp
  also have "(c * m + r) mod m = r" using assms(2) by simp
  finally show "List.product [0..<n] [0..<m] ! (c * m + r) = (c, r)" using assms by simp
qed

lemma cells_split:
  assumes "c < n" "r < m"
  obtains pre post where "List.product [0..<n] [0..<m] = pre @ (c, r) # post"
    and "length pre = c * m + r" and "(c, r) \<notin> set pre" and "(c, r) \<notin> set post"
proof -
  let ?cs = "List.product [0..<n] [0..<m]"
  let ?i = "c * m + r"
  from cells_nth[OF assms] have nth: "?cs ! ?i = (c, r)" and lt: "?i < length ?cs" by auto
  have eq: "?cs = take ?i ?cs @ (c, r) # drop (Suc ?i) ?cs"
    using id_take_nth_drop[OF lt] nth by simp
  have "distinct ?cs" by (simp add: distinct_product)
  with eq have "distinct (take ?i ?cs @ (c, r) # drop (Suc ?i) ?cs)" by simp
  then have "(c, r) \<notin> set (take ?i ?cs)" "(c, r) \<notin> set (drop (Suc ?i) ?cs)" by auto
  moreover have "length (take ?i ?cs) = ?i" using lt by simp
  ultimately show thesis using eq that by blast
qed


lemma init_original_simps:
  "tile_num init_original = START_TILE"
  "im_size (output_image init_original) = (OUTPUT_SIZE, OUTPUT_SIZE)"
  by (simp_all add: init_original_def Image_new_def im_size_def)

lemma traverse_original_size:
  assumes "traverse_original L d = Inr st'"
  shows "im_size (output_image st') = (OUTPUT_SIZE, OUTPUT_SIZE)"
  using loop_original_size[OF assms[unfolded traverse_original_flat]]
  by (simp add: init_original_simps)

lemma traverse_original_cell:
  assumes run: "traverse_original L d = Inr st'" and c: "c < GRID_SIZE" and r: "r < GRID_SIZE"
  obtains st tile st1 where
    "tile_num st = START_TILE + c * GRID_SIZE + r"
    "load_tile_original L d c r st = Inr (tile, st1)"
    "\<And>x y. c * TILE_SIZE \<le> x \<Longrightarrow> x < Suc c * TILE_SIZE \<Longrightarrow> r * TILE_SIZE \<le> y \<Longrightarrow>
       y < Suc r * TILE_SIZE \<Longrightarrow>
       px (output_image st') x y = px tile (x - c * TILE_SIZE) (y - r * TILE_SIZE)"
proof -
  let ?body = "\<lambda>(c, r). cell_original L d c r"
  obtain pre post where decomp: "List.product [0..<GRID_SIZE] [0..<GRID_SIZE] = pre @ (c, r) # post"
    and len: "length pre = c * GRID_SIZE + r" and npre: "(c, r) \<notin> set pre"
    and post: "(c, r) \<notin> set post"
    by (rule cells_split[OF c r])
  from run have whole: "for_loop (pre @ (c, r) # post) ?body init_original = Inr st'"
    unfolding traverse_original_flat decomp .
  obtain sa where pre: "for_loop pre ?body init_original = Inr sa"
    and tl: "for_loop ((c, r) # post) ?body sa = Inr st'"
    using whole unfolding for_loop_append by (cases "for_loop pre ?body init_original") simp_all
  obtain sb where step: "cell_original L d c r sa = Inr sb"
    and rest: "for_loop post ?body sb = Inr st'"
    using tl by (cases "cell_original L d c r sa") simp_all
  have num: "tile_num sa = START_TILE + c * GRID_SIZE + r"
    using loop_original_tile_num[OF pre] len by (simp add: init_original_simps)
  have "im_size (output_image sa) = (OUTPUT_SIZE, OUTPUT_SIZE)"
    using loop_original_size[OF pre] by (simp add: init_original_simps)
  then have w: "width (output_image sa) = GRID_SIZE * TILE_SIZE"
    and h: "height (output_image sa) = GRID_SIZE * TILE_SIZE"
    by (simp_all add: im_size_def OUTPUT_SIZE_def mult.commute)
  from step obtain tile st1 where load: "load_tile_original L d c r sa = Inr (tile, st1)"
    by (rule cell_original_Inr)
  have pix: "px (output_image st') x y = px tile (x - c * TILE_SIZE) (y - r * TILE_SIZE)"
    if x1: "c * TILE_SIZE \<le> x" and x2: "x < Suc c * TILE_SIZE"
      and y1: "r * TILE_SIZE \<le> y" and y2: "y < Suc r * TILE_SIZE" for x y
  proof -
    have "Suc c * TILE_SIZE \<le> GRID_SIZE * TILE_SIZE" using c by (intro mult_le_mono1) simp
    with x2 w have xw: "x < width (output_image sa)" by simp
    have "Suc r * TILE_SIZE \<le> GRID_SIZE * TILE_SIZE" using r by (intro mult_le_mono1) simp
    with y2 h have yh: "y < height (output_image sa)" by simp
    have inside: "px (output_image sb) x y = px tile (x - c * TILE_SIZE) (y - r * TILE_SIZE)"
      by (rule cell_original_px_inside[OF step load x1 x2 y1 y2 xw yh])
    have "px (output_image st') x y = px (output_image sb) x y"
    proof (rule loop_original_px_outside[OF rest])
      fix c' r'
      assume mem: "(c', r') \<in> set post"
      show "\<not> (c' * TILE_SIZE \<le> x \<and> x < Suc c' * TILE_SIZE \<and> r' * TILE_SIZE \<le> y \<and> y < Suc r' * TILE_SIZE)"
      proof
        assume in': "c' * TILE_SIZE \<le> x \<and> x < Suc c' * TILE_SIZE \<and> r' * TILE_SIZE \<le> y \<and> y < Suc r' * TILE_SIZE"
        have "c = c'" using region_unique[OF x1 x2] in' by blast
        moreover have "r = r'" using region_unique[OF y1 y2] in' by blast
        ultimately show False using mem post by simp
      qed
    qed
    with inside show ?thesis by simp
  qed
  show thesis by (rule that[OF num load pix])
qed

lemma cell_original_completes:
  assumes "tile_num st \<in> set MISSING_TILES
           \<or> path_lookup d (str (tile_num st) @ ''.jpg'') \<noteq> Some Undecodable"
  shows "\<exists>st'. cell_original L d c r st = Inr st'"
proof -
  have "\<exists>p. load_tile_original L d c r st = Inr p"
    using assms
    by (cases "path_lookup d (str (tile_num st) @ ''.jpg'')")
      (auto simp: load_tile_original_def Let_def os_path_exists_def Image_open_def
        split: tile_file.splits)
  then obtain tile st1 where "load_tile_original L d c r st = Inr (tile, st1)" by auto
  then show ?thesis by (simp add: cell_original_def Let_def)
qed

lemma loop_original_completes:
  assumes "\<And>i. i < length cs \<Longrightarrow> tile_num st + i \<in> set MISSING_TILES
           \<or> path_lookup d (str (tile_num st + i) @ ''.jpg'') \<noteq> Some Undecodable"
  shows "\<exists>st'. for_loop cs (\<lambda>(c, r). cell_original L d c r) st = Inr st'"
  using assms
proof (induction cs arbitrary: st)
  case Nil
  then show ?case by simp
next
  case (Cons a cs)
  obtain c r where a: "a = (c, r)" by (cases a)
  from Cons.prems[of 0] obtain s where s: "cell_original L d c r st = Inr s"
    using cell_original_completes[of st d L c r] by auto
  then have num: "tile_num s = tile_num st + 1" by (rule cell_original_Inr)
  have "\<exists>st'. for_loop cs (\<lambda>(c, r). cell_original L d c r) s = Inr st'"
  proof (rule Cons.IH)
    fix i assume "i < length cs"
    then show "tile_num s + i \<in> set MISSING_TILES
           \<or> path_lookup d (str (tile_num s + i) @ ''.jpg'') \<noteq> Some Undecodable"
      using Cons.prems[of "Suc i"] num by simp
  qed
  with s a show ?case by simp
qed

lemma grid_index:
  fixes i n m :: nat
  assumes "i < n * m"
  obtains c r where "c < n" "r < m" "i = c * m + r"
proof -
  have m: "0 < m" using assms by (cases m) auto
  have "i div m < n" using assms by (simp add: less_mult_imp_div_less)
  moreover have "i mod m < m" using m by simp
  moreover have "i = (i div m) * m + i mod m" by simp
  ultimately show thesis using that by blast
qed

lemma traverse_original_completes:
  assumes "\<And>c r. c < GRID_SIZE \<Longrightarrow> r < GRID_SIZE \<Longrightarrow>
      START_TILE + c * GRID_SIZE + r \<in> set MISSING_TILES
      \<or> path_lookup d (str (START_TILE + c * GRID_SIZE + r) @ ''.jpg'') \<noteq> Some Undecodable"
  shows "\<exists>st'. traverse_original L d = Inr st'"
  unfolding traverse_original_flat
proof (rule loop_original_completes)
  fix i assume "i < length (List.product [0..<GRID_SIZE] [0..<GRID_SIZE])"
  then have "i < GRID_SIZE * GRID_SIZE" by simp
  then obtain c r where "c < GRID_SIZE" "r < GRID_SIZE" "i = c * GRID_SIZE + r"
    by (rule grid_index)
  with assms[of c r]
  show "tile_num init_original + i \<in> set MISSING_TILES
      \<or> path_lookup d (str (tile_num init_original + i) @ ''.jpg'') \<noteq> Some Undecodable"
    by (simp add: init_original_simps add.assoc)
qed


lemma cell_original_fails:
  assumes "tile_num st \<notin> set MISSING_TILES"
    and "path_lookup d (str (tile_num st) @ ''.jpg'') = Some Undecodable"
  shows "cell_original L d c r st = Inl (UnidentifiedImageError (str (tile_num st) @ ''.jpg''))"
  using assms
  by (simp add: cell_original_def load_tile_original_def Let_def os_path_exists_def Image_open_def)

lemma traverse_original_fails:
  assumes c: "c < GRID_SIZE" and r: "r < GRID_SIZE"
    and nm: "START_TILE + c * GRID_SIZE + r \<notin> set MISSING_TILES"
    and bad: "path_lookup d (str (START_TILE + c * GRID_SIZE + r) @ ''.jpg'') = Some Undecodable"
  shows "\<exists>e. traverse_original L d = Inl e"
proof -
  let ?body = "\<lambda>(c, r). cell_original L d c r"
  obtain pre post where decomp: "List.product [0..<GRID_SIZE] [0..<GRID_SIZE] = pre @ (c, r) # post"
    and len: "length pre = c * GRID_SIZE + r" and npre: "(c, r) \<notin> set pre"
    and post: "(c, r) \<notin> set post"
    by (rule cells_split[OF c r])
  show ?thesis
  proof (cases "for_loop pre ?body init_original")
    case (Inl e)
    then show ?thesis
      unfolding traverse_original_flat decomp for_loop_append by simp
  next
    case (Inr sa)
    have num: "tile_num sa = START_TILE + c * GRID_SIZE + r"
      using loop_original_tile_num[OF Inr] len by (simp add: init_original_simps)
    have "cell_original L d c r sa = Inl (UnidentifiedImageError (str (tile_num sa) @ ''.jpg''))"
      by (rule cell_original_fails) (use nm bad num in simp_all)
    with Inr show ?thesis
      unfolding traverse_original_flat decomp for_loop_append by simp
  qed
qed

lemma load_tile_original_cong:
  assumes "tile_num st \<in> set MISSING_TILES
    \<or> path_lookup d (str (tile_num st) @ ''.jpg'') = path_lookup d' (str (tile_num st) @ ''.jpg'')"
  shows "load_tile_original L d c r st = load_tile_original L d' c r st"
  using assms
  by (cases "tile_num st \<in> set MISSING_TILES")
    (simp_all add: load_tile_original_def Let_def os_path_exists_def Image_open_def)

lemma cell_original_cong:
  assumes "tile_num st \<in> set MISSING_TILES
    \<or> path_lookup d (str (tile_num st) @ ''.jpg'') = path_lookup d' (str (tile_num st) @ ''.jpg'')"
  shows "cell_original L d c r st = cell_original L d' c r st"
  by (simp add: cell_original_def load_tile_original_cong[OF assms])

lemma loop_original_cong:
  assumes "\<And>i. i < length cs \<Longrightarrow> tile_num st + i \<in> set MISSING_TILES
    \<or> path_lookup d (str (tile_num st + i) @ ''.jpg'') = path_lookup d' (str (tile_num st + i) @ ''.jpg'')"
  shows "for_loop cs (\<lambda>(c, r). cell_original L d c r) st
       = for_loop cs (\<lambda>(c, r). cell_original L d' c r) st"
  using assms
proof (induction cs arbitrary: st)
  case Nil
  then show ?case by simp
next
  case (Cons a cs)
  obtain c r where a: "a = (c, r)" by (cases a)
  have eq: "cell_original L d c r st = cell_original L d' c r st"
    by (rule cell_original_cong) (use Cons.prems[of 0] in simp)
  show ?case
  proof (cases "cell_original L d c r st")
    case (Inl e)
    moreover from Inl eq have "cell_original L d' c r st = Inl e" by simp
    ultimately show ?thesis using a by simp
  next
    case (Inr s)
    from Inr eq have Inr': "cell_original L d' c r st = Inr s" by simp
    from Inr have num: "tile_num s = tile_num st + 1" by (rule cell_original_Inr)
    have "for_loop cs (\<lambda>(c, r). cell_original L d c r) s
        = for_loop cs (\<lambda>(c, r). cell_original L d' c r) s"
    proof (rule Cons.IH)
      fix i assume "i < length cs"
      then show "tile_num s + i \<in> set MISSING_TILES
        \<or> path_lookup d (str (tile_num s + i) @ ''.jpg'') = path_lookup d' (str (tile_num s + i) @ ''.jpg'')"
        using Cons.prems[of "Suc i"] num by simp
    qed
    with Inr Inr' a show ?thesis by simp
  qed
qed

lemma traverse_original_cong:
  assumes "\<And>c r. c < GRID_SIZE \<Longrightarrow> r < GRID_SIZE \<Longrightarrow>
      START_TILE + c * GRID_SIZE + r \<in> set MISSING_TILES
      \<or> path_lookup d (str (START_TILE + c * GRID_SIZE + r) @ ''.jpg'')
        = path_lookup d' (str (START_TILE + c * GRID_SIZE + r) @ ''.jpg'')"
  shows "traverse_original L d = traverse_original L d'"
  unfolding traverse_original_flat
proof (rule loop_original_cong)
  fix i assume "i < length (List.product [0..<GRID_SIZE] [0..<GRID_SIZE])"
  then have "i < GRID_SIZE * GRID_SIZE" by simp
  then obtain c r where "c < GRID_SIZE" "r < GRID_SIZE" "i = c * GRID_SIZE + r"
    by (rule grid_index)
  with assms[of c r]
  show "tile_num init_original + i \<in> set MISSING_TILES
      \<or> path_lookup d (str (tile_num init_original + i) @ ''.jpg'')
        = path_lookup d' (str (tile_num init_original + i) @ ''.jpg'')"
    by (simp add: init_original_simps add.assoc)
qed


subsection \<open>The traversal of \<^verbatim>\<open>assemble-v1-map.py\<close>\<close>

lemma cell_v1_absent:
  assumes "path_lookup d (str row @ ''-'' @ str col @ ''.png'') = None"
  shows "\<exists>st'. cell_v1 L d row col st = Inr st' \<and> output_image st' = output_image st"
  using assms by (simp add: cell_v1_def Let_def os_path_exists_def)

lemma cell_v1_undecodable:
  assumes "path_lookup d (str row @ ''-'' @ str col @ ''.png'') = Some Undecodable"
  shows "cell_v1 L d row col st = Inl (UnidentifiedImageError (str row @ ''-'' @ str col @ ''.png''))"
  using assms by (simp add: cell_v1_def Let_def os_path_exists_def Image_open_def)

lemma cell_v1_decodable:
  assumes "path_lookup d (str row @ ''-'' @ str col @ ''.png'') = Some (Decodable im)"
  shows "\<exists>st'. cell_v1 L d row col st = Inr st' \<and>
     output_image st' =
       paste (output_image st)
         (if im_size im \<noteq> (TILE_SIZE, TILE_SIZE) then resize L im (TILE_SIZE, TILE_SIZE) else im)
         ((col - 1) * TILE_SIZE, (row - 1) * TILE_SIZE)"
  using assms by (simp add: cell_v1_def Let_def os_path_exists_def Image_open_def)

lemma fitted_tile_size:
  "im_size (if im_size im \<noteq> (TILE_SIZE, TILE_SIZE) then resize L im (TILE_SIZE, TILE_SIZE) else im)
     = (TILE_SIZE, TILE_SIZE)"
  by (simp add: im_size_def resize_def)

lemma cell_v1_Inr:
  assumes "cell_v1 L d row col st = Inr st'"
  obtains (absent) "path_lookup d (str row @ ''-'' @ str col @ ''.png'') = None"
      "output_image st' = output_image st"
    | (decodable) im where "path_lookup d (str row @ ''-'' @ str col @ ''.png'') = Some (Decodable im)"
      "output_image st' =
         paste (output_image st)
           (if im_size im \<noteq> (TILE_SIZE, TILE_SIZE) then resize L im (TILE_SIZE, TILE_SIZE) else im)
           ((col - 1) * TILE_SIZE, (row - 1) * TILE_SIZE)"
proof (cases "path_lookup d (str row @ ''-'' @ str col @ ''.png'')")
  case None
  from cell_v1_absent[OF None, of L st] assms have "output_image st' = output_image st" by auto
  with None show thesis by (rule absent)
next
  case (Some f)
  show thesis
  proof (cases f)
    case (Decodable im)
    with Some have l: "path_lookup d (str row @ ''-'' @ str col @ ''.png'') = Some (Decodable im)"
      by simp
    from cell_v1_decodable[OF l, of L st] assms
    have "output_image st' =
         paste (output_image st)
           (if im_size im \<noteq> (TILE_SIZE, TILE_SIZE) then resize L im (TILE_SIZE, TILE_SIZE) else im)
           ((col - 1) * TILE_SIZE, (row - 1) * TILE_SIZE)" by auto
    with l show thesis by (rule decodable)
  next
    case Undecodable
    with Some have "path_lookup d (str row @ ''-'' @ str col @ ''.png'') = Some Undecodable" by simp
    from cell_v1_undecodable[OF this, of L st] assms show thesis by simp
  qed
qed

lemma cell_v1_size:
  assumes "cell_v1 L d row col st = Inr st'"
  shows "im_size (output_image st') = im_size (output_image st)"
  using assms by (cases rule: cell_v1_Inr) (simp_all add: im_size_def)

lemma cell_v1_px_outside:
  assumes "cell_v1 L d row col st = Inr st'"
    and out: "\<not> ((col - 1) * TILE_SIZE \<le> x \<and> x < Suc (col - 1) * TILE_SIZE
           \<and> (row - 1) * TILE_SIZE \<le> y \<and> y < Suc (row - 1) * TILE_SIZE)"
  shows "px (output_image st') x y = px (output_image st) x y"
  using assms(1)
proof (cases rule: cell_v1_Inr)
  case absent
  then show ?thesis by simp
next
  case (decodable im)
  let ?t = "if im_size im \<noteq> (TILE_SIZE, TILE_SIZE) then resize L im (TILE_SIZE, TILE_SIZE) else im"
  from fitted_tile_size[of im L] have "width ?t = TILE_SIZE" "height ?t = TILE_SIZE"
    unfolding im_size_def by simp_all
  with decodable(2) out show ?thesis by (auto simp: px_paste)
qed

lemma cell_v1_px_inside:
  assumes "cell_v1 L d row col st = Inr st'"
    and "(col - 1) * TILE_SIZE \<le> x" "x < Suc (col - 1) * TILE_SIZE"
    and "(row - 1) * TILE_SIZE \<le> y" "y < Suc (row - 1) * TILE_SIZE"
    and "x < width (output_image st)" "y < height (output_image st)"
  shows "px (output_image st') x y =
     (case path_lookup d (str row @ ''-'' @ str col @ ''.png'') of
        None \<Rightarrow> px (output_image st) x y
      | Some Undecodable \<Rightarrow> px (output_image st) x y
      | Some (Decodable im) \<Rightarrow>
          px (if im_size im \<noteq> (TILE_SIZE, TILE_SIZE) then resize L im (TILE_SIZE, TILE_SIZE) else im)
            (x - (col - 1) * TILE_SIZE) (y - (row - 1) * TILE_SIZE))"
  using assms(1)
proof (cases rule: cell_v1_Inr)
  case absent
  then show ?thesis by simp
next
  case (decodable im)
  let ?t = "if im_size im \<noteq> (TILE_SIZE, TILE_SIZE) then resize L im (TILE_SIZE, TILE_SIZE) else im"
  from fitted_tile_size[of im L] have "width ?t = TILE_SIZE" "height ?t = TILE_SIZE"
    unfolding im_size_def by simp_all
  with decodable assms(2-) show ?thesis by (auto simp: px_paste)
qed

lemma loop_v1_size:
  assumes "for_loop cs (\<lambda>(row, col). cell_v1 L d row col) st = Inr st'"
  shows "im_size (output_image st') = im_size (output_image st)"
proof (rule for_loop_invariant[OF assms, where P = "\<lambda>s. im_size (output_image s) = im_size (output_image st)"])
  show "im_size (output_image st) = im_size (output_image st)" ..
next
  fix a s s'
  assume P: "im_size (output_image s) = im_size (output_image st)"
    and step: "(case a of (row, col) \<Rightarrow> cell_v1 L d row col) s = Inr s'"
  obtain row col where a: "a = (row, col)" by (cases a)
  from step a have "cell_v1 L d row col s = Inr s'" by simp
  from cell_v1_size[OF this] P
  show "im_size (output_image s') = im_size (output_image st)" by simp
qed

lemma loop_v1_px_outside:
  assumes "for_loop cs (\<lambda>(row, col). cell_v1 L d row col) st = Inr st'"
    and "\<And>row col. (row, col) \<in> set cs \<Longrightarrow>
      \<not> ((col - 1) * TILE_SIZE \<le> x \<and> x < Suc (col - 1) * TILE_SIZE
           \<and> (row - 1) * TILE_SIZE \<le> y \<and> y < Suc (row - 1) * TILE_SIZE)"
  shows "px (output_image st') x y = px (output_image st) x y"
proof (rule for_loop_invariant[OF assms(1), where P = "\<lambda>s. px (output_image s) x y = px (output_image st) x y"])
  show "px (output_image st) x y = px (output_image st) x y" ..
next
  fix a s s'
  assume a: "a \<in> set cs" and P: "px (output_image s) x y = px (output_image st) x y"
    and step: "(case a of (row, col) \<Rightarrow> cell_v1 L d row col) s = Inr s'"
  obtain row col where rc: "a = (row, col)" by (cases a)
  from step rc have "cell_v1 L d row col s = Inr s'" by simp
  from cell_v1_px_outside[OF this assms(2)] a rc P
  show "px (output_image s') x y = px (output_image st) x y" by simp
qed

lemma traverse_v1_flat:
  "traverse_v1 L p d =
     for_loop (List.product [1..<GRID_ROWS + 1] [1..<GRID_COLS + 1])
       (\<lambda>(row, col). cell_v1 L d row col) (init_v1 p)"
  by (simp add: traverse_v1_def for_loop_product)

lemma init_v1_simps:
  "im_size (output_image (init_v1 p)) = (ASSEMBLED_SIZE, ASSEMBLED_SIZE)"
  "px (output_image (init_v1 p)) x y = black"
  by (simp_all add: init_v1_def Image_new_def im_size_def)

lemma traverse_v1_size:
  assumes "traverse_v1 L p d = Inr st'"
  shows "im_size (output_image st') = (ASSEMBLED_SIZE, ASSEMBLED_SIZE)"
  using loop_v1_size[OF assms[unfolded traverse_v1_flat]]
  by (simp add: init_v1_simps)


lemma cells_v1_mem:
  "(row, col) \<in> set (List.product [1..<n + 1] [1..<m + 1])
     \<longleftrightarrow> 1 \<le> row \<and> row \<le> n \<and> 1 \<le> col \<and> col \<le> m"
  unfolding set_product set_upt by auto

lemma cells_v1_split:
  assumes "1 \<le> row" "row \<le> n" "1 \<le> col" "col \<le> m"
  obtains pre post where "List.product [1..<n + 1] [1..<m + 1] = pre @ (row, col) # post"
    and "(row, col) \<notin> set pre" and "(row, col) \<notin> set post"
proof -
  let ?cs = "List.product [1..<n + 1] [1..<m + 1]"
  have mem: "(row, col) \<in> set ?cs" using assms unfolding cells_v1_mem by simp
  from split_list[OF mem] obtain pre post where eq: "?cs = pre @ (row, col) # post" by blast
  have "distinct [1..<n + 1]" "distinct [1..<m + 1]" by (rule distinct_upt)+
  then have "distinct ?cs" by (rule distinct_product)
  then have "distinct (pre @ (row, col) # post)" unfolding eq .
  then have "(row, col) \<notin> set pre" "(row, col) \<notin> set post" by auto
  with eq show thesis by (rule that)
qed

lemma traverse_v1_cell:
  assumes run: "traverse_v1 L p d = Inr st'"
    and row: "1 \<le> row" "row \<le> GRID_ROWS" and col: "1 \<le> col" "col \<le> GRID_COLS"
    and x1: "(col - 1) * TILE_SIZE \<le> x" and x2: "x < Suc (col - 1) * TILE_SIZE"
    and y1: "(row - 1) * TILE_SIZE \<le> y" and y2: "y < Suc (row - 1) * TILE_SIZE"
  shows "px (output_image st') x y =
     (case path_lookup d (str row @ ''-'' @ str col @ ''.png'') of
        None \<Rightarrow> black
      | Some Undecodable \<Rightarrow> black
      | Some (Decodable im) \<Rightarrow>
          px (if im_size im \<noteq> (TILE_SIZE, TILE_SIZE) then resize L im (TILE_SIZE, TILE_SIZE) else im)
            (x - (col - 1) * TILE_SIZE) (y - (row - 1) * TILE_SIZE))"
proof -
  let ?body = "\<lambda>(row, col). cell_v1 L d row col"
  let ?cs = "List.product [1..<GRID_ROWS + 1] [1..<GRID_COLS + 1]"
  obtain pre post where decomp: "?cs = pre @ (row, col) # post"
    and npre: "(row, col) \<notin> set pre" and npost: "(row, col) \<notin> set post"
    by (rule cells_v1_split[OF row col])
  have other: "\<not> ((col' - 1) * TILE_SIZE \<le> x \<and> x < Suc (col' - 1) * TILE_SIZE
           \<and> (row' - 1) * TILE_SIZE \<le> y \<and> y < Suc (row' - 1) * TILE_SIZE)"
    if mem: "(row', col') \<in> set ?cs" and ne: "(row', col') \<noteq> (row, col)" for row' col'
  proof
    assume in': "(col' - 1) * TILE_SIZE \<le> x \<and> x < Suc (col' - 1) * TILE_SIZE
           \<and> (row' - 1) * TILE_SIZE \<le> y \<and> y < Suc (row' - 1) * TILE_SIZE"
    have "col - 1 = col' - 1" using region_unique[OF x1 x2] in' by blast
    moreover have "row - 1 = row' - 1" using region_unique[OF y1 y2] in' by blast
    moreover from mem have "1 \<le> row'" "1 \<le> col'" unfolding cells_v1_mem by simp_all
    ultimately have "row' = row" "col' = col" using row(1) col(1) by linarith+
    with ne show False by simp
  qed
  from run have whole: "for_loop (pre @ (row, col) # post) ?body (init_v1 p) = Inr st'"
    unfolding traverse_v1_flat decomp .
  obtain sa where pre: "for_loop pre ?body (init_v1 p) = Inr sa"
    and tl: "for_loop ((row, col) # post) ?body sa = Inr st'"
    using whole unfolding for_loop_append by (cases "for_loop pre ?body (init_v1 p)") simp_all
  obtain sb where step: "cell_v1 L d row col sa = Inr sb"
    and rest: "for_loop post ?body sb = Inr st'"
    using tl by (cases "cell_v1 L d row col sa") simp_all
  have "px (output_image sa) x y = px (output_image (init_v1 p)) x y"
  proof (rule loop_v1_px_outside[OF pre])
    fix row' col' assume m: "(row', col') \<in> set pre"
    then have "(row', col') \<in> set ?cs" unfolding decomp by simp
    moreover from m npre have "(row', col') \<noteq> (row, col)" by auto
    ultimately show "\<not> ((col' - 1) * TILE_SIZE \<le> x \<and> x < Suc (col' - 1) * TILE_SIZE
           \<and> (row' - 1) * TILE_SIZE \<le> y \<and> y < Suc (row' - 1) * TILE_SIZE)"
      by (rule other)
  qed
  then have sa_black: "px (output_image sa) x y = black" by (simp add: init_v1_simps)
  have "im_size (output_image sa) = (ASSEMBLED_SIZE, ASSEMBLED_SIZE)"
    using loop_v1_size[OF pre] by (simp add: init_v1_simps)
  then have w: "width (output_image sa) = GRID_COLS * TILE_SIZE"
    and h: "height (output_image sa) = GRID_ROWS * TILE_SIZE"
    by (simp_all add: im_size_def ASSEMBLED_SIZE_def GRID_ROWS_def GRID_COLS_def)
  have "Suc (col - 1) * TILE_SIZE \<le> GRID_COLS * TILE_SIZE"
    using col by (intro mult_le_mono1) simp
  with x2 w have xw: "x < width (output_image sa)" by simp
  have "Suc (row - 1) * TILE_SIZE \<le> GRID_ROWS * TILE_SIZE"
    using row by (intro mult_le_mono1) simp
  with y2 h have yh: "y < height (output_image sa)" by simp
  have "px (output_image st') x y = px (output_image sb) x y"
  proof (rule loop_v1_px_outside[OF rest])
    fix row' col' assume m: "(row', col') \<in> set post"
    then have "(row', col') \<in> set ?cs" unfolding decomp by simp
    moreover from m npost have "(row', col') \<noteq> (row, col)" by auto
    ultimately show "\<not> ((col' - 1) * TILE_SIZE \<le> x \<and> x < Suc (col' - 1) * TILE_SIZE
           \<and> (row' - 1) * TILE_SIZE \<le> y \<and> y < Suc (row' - 1) * TILE_SIZE)"
      by (rule other)
  qed
  also have "\<dots> = (case path_lookup d (str row @ ''-'' @ str col @ ''.png'') of
        None \<Rightarrow> px (output_image sa) x y
      | Some Undecodable \<Rightarrow> px (output_image sa) x y
      | Some (Decodable im) \<Rightarrow>
          px (if im_size im \<noteq> (TILE_SIZE, TILE_SIZE) then resize L im (TILE_SIZE, TILE_SIZE) else im)
            (x - (col - 1) * TILE_SIZE) (y - (row - 1) * TILE_SIZE))"
    by (rule cell_v1_px_inside[OF step x1 x2 y1 y2 xw yh])
  finally show ?thesis unfolding sa_black .
qed

lemma loop_v1_completes:
  assumes "\<And>row col. (row, col) \<in> set cs \<Longrightarrow>
      path_lookup d (str row @ ''-'' @ str col @ ''.png'') \<noteq> Some Undecodable"
  shows "\<exists>st'. for_loop cs (\<lambda>(row, col). cell_v1 L d row col) st = Inr st'"
  using assms
proof (induction cs arbitrary: st)
  case Nil
  then show ?case by simp
next
  case (Cons a cs)
  obtain row col where a: "a = (row, col)" by (cases a)
  have ok: "path_lookup d (str row @ ''-'' @ str col @ ''.png'') \<noteq> Some Undecodable"
    using Cons.prems[of row col] a by simp
  have "\<exists>s. cell_v1 L d row col st = Inr s"
  proof (cases "path_lookup d (str row @ ''-'' @ str col @ ''.png'')")
    case None
    from cell_v1_absent[OF None, of L st] show ?thesis by blast
  next
    case (Some f)
    with ok obtain im where "f = Decodable im" by (cases f) auto
    with Some have "path_lookup d (str row @ ''-'' @ str col @ ''.png'') = Some (Decodable im)"
      by simp
    from cell_v1_decodable[OF this, of L st] show ?thesis by blast
  qed
  then obtain s where s: "cell_v1 L d row col st = Inr s" ..
  have "\<exists>st'. for_loop cs (\<lambda>(row, col). cell_v1 L d row col) s = Inr st'"
    by (rule Cons.IH) (use Cons.prems in simp)
  with s a show ?case by simp
qed

lemma traverse_v1_completes:
  assumes "\<And>row col. 1 \<le> row \<Longrightarrow> row \<le> GRID_ROWS \<Longrightarrow> 1 \<le> col \<Longrightarrow> col \<le> GRID_COLS \<Longrightarrow>
      path_lookup d (str row @ ''-'' @ str col @ ''.png'') \<noteq> Some Undecodable"
  shows "\<exists>st'. traverse_v1 L p d = Inr st'"
  unfolding traverse_v1_flat
proof (rule loop_v1_completes)
  fix row col
  assume "(row, col) \<in> set (List.product [1..<GRID_ROWS + 1] [1..<GRID_COLS + 1])"
  then have "1 \<le> row \<and> row \<le> GRID_ROWS \<and> 1 \<le> col \<and> col \<le> GRID_COLS"
    unfolding cells_v1_mem .
  then show "path_lookup d (str row @ ''-'' @ str col @ ''.png'') \<noteq> Some Undecodable"
    using assms by blast
qed

lemma traverse_v1_fails:
  assumes row: "1 \<le> row" "row \<le> GRID_ROWS" and col: "1 \<le> col" "col \<le> GRID_COLS"
    and bad: "path_lookup d (str row @ ''-'' @ str col @ ''.png'') = Some Undecodable"
  shows "\<exists>e. traverse_v1 L p d = Inl e"
proof -
  let ?body = "\<lambda>(row, col). cell_v1 L d row col"
  obtain pre post where decomp:
    "List.product [1..<GRID_ROWS + 1] [1..<GRID_COLS + 1] = pre @ (row, col) # post"
    and npre: "(row, col) \<notin> set pre" and npost: "(row, col) \<notin> set post"
    by (rule cells_v1_split[OF row col])
  show ?thesis
  proof (cases "for_loop pre ?body (init_v1 p)")
    case (Inl e)
    then show ?thesis unfolding traverse_v1_flat decomp for_loop_append by simp
  next
    case (Inr sa)
    with cell_v1_undecodable[OF bad, of L sa] show ?thesis
      unfolding traverse_v1_flat decomp for_loop_append by simp
  qed
qed

lemma cell_v1_cong:
  assumes "path_lookup d (str row @ ''-'' @ str col @ ''.png'')
         = path_lookup d' (str row @ ''-'' @ str col @ ''.png'')"
  shows "cell_v1 L d row col st = cell_v1 L d' row col st"
  using assms by (simp add: cell_v1_def Let_def os_path_exists_def Image_open_def)

lemma loop_v1_cong:
  assumes "\<And>row col. (row, col) \<in> set cs \<Longrightarrow>
      path_lookup d (str row @ ''-'' @ str col @ ''.png'')
    = path_lookup d' (str row @ ''-'' @ str col @ ''.png'')"
  shows "for_loop cs (\<lambda>(row, col). cell_v1 L d row col) st
       = for_loop cs (\<lambda>(row, col). cell_v1 L d' row col) st"
  using assms
proof (induction cs arbitrary: st)
  case Nil
  then show ?case by simp
next
  case (Cons a cs)
  obtain row col where a: "a = (row, col)" by (cases a)
  have eq: "cell_v1 L d row col st = cell_v1 L d' row col st"
    by (rule cell_v1_cong) (use Cons.prems[of row col] a in simp)
  have rest: "for_loop cs (\<lambda>(row, col). cell_v1 L d row col) s
        = for_loop cs (\<lambda>(row, col). cell_v1 L d' row col) s" for s
    by (rule Cons.IH) (use Cons.prems in simp)
  show ?case
  proof (cases "cell_v1 L d' row col st")
    case (Inl e)
    with eq a show ?thesis by simp
  next
    case (Inr s)
    with eq a rest[of s] show ?thesis by simp
  qed
qed

lemma traverse_v1_cong:
  assumes "\<And>row col. 1 \<le> row \<Longrightarrow> row \<le> GRID_ROWS \<Longrightarrow> 1 \<le> col \<Longrightarrow> col \<le> GRID_COLS \<Longrightarrow>
      path_lookup d (str row @ ''-'' @ str col @ ''.png'')
    = path_lookup d' (str row @ ''-'' @ str col @ ''.png'')"
  shows "traverse_v1 L p d = traverse_v1 L p d'"
  unfolding traverse_v1_flat
proof (rule loop_v1_cong)
  fix row col
  assume "(row, col) \<in> set (List.product [1..<GRID_ROWS + 1] [1..<GRID_COLS + 1])"
  then have "1 \<le> row \<and> row \<le> GRID_ROWS \<and> 1 \<le> col \<and> col \<le> GRID_COLS"
    unfolding cells_v1_mem .
  then show "path_lookup d (str row @ ''-'' @ str col @ ''.png'')
    = path_lookup d' (str row @ ''-'' @ str col @ ''.png'')"
    using assms by blast
qed

subsection \<open>The scripts in terms of the traversal\<close>

lemma assemble_map_original_Inr:
  assumes "assemble_map_original L w = Inr (out, w')"
  obtains st where "traverse_original L (tile_dir w) = Inr st"
    and "output_writable w" and "w' = w\<lparr>output_file := Some (output_image st)\<rparr>"
proof (cases "traverse_original L (tile_dir w)")
  case (Inl e)
  with assms show thesis by (simp add: assemble_map_original_def)
next
  case (Inr st)
  with assms have "output_writable w" "w' = w\<lparr>output_file := Some (output_image st)\<rparr>"
    by (auto simp: assemble_map_original_def Image_save_def split: if_splits)
  with Inr show thesis by (rule that)
qed

lemma assemble_map_original_completes:
  assumes "traverse_original L (tile_dir w) = Inr st" and "output_writable w"
  shows "\<exists>out. assemble_map_original L w = Inr (out, w\<lparr>output_file := Some (output_image st)\<rparr>)"
  using assms by (simp add: assemble_map_original_def Image_save_def)

lemma assemble_map_v1_Inr:
  assumes "assemble_map_v1 L p w = Inr (out, w')"
  obtains st where "traverse_v1 L p (tile_dir w) = Inr st"
    and "output_writable w"
    and "w' = w\<lparr>output_file := Some (resize L (output_image st) (GAME_SIZE, GAME_SIZE))\<rparr>"
proof (cases "traverse_v1 L p (tile_dir w)")
  case (Inl e)
  with assms show thesis by (simp add: assemble_map_v1_def)
next
  case (Inr st)
  with assms have "output_writable w"
    "w' = w\<lparr>output_file := Some (resize L (output_image st) (GAME_SIZE, GAME_SIZE))\<rparr>"
    by (auto simp: assemble_map_v1_def Image_save_def Let_def split: if_splits)
  with Inr show thesis by (rule that)
qed

lemma assemble_map_v1_completes:
  assumes "traverse_v1 L p (tile_dir w) = Inr st" and "output_writable w"
  shows "\<exists>out. assemble_map_v1 L p w =
    Inr (out, w\<lparr>output_file := Some (resize L (output_image st) (GAME_SIZE, GAME_SIZE))\<rparr>)"
  using assms by (simp add: assemble_map_v1_def Image_save_def Let_def)

lemma empty_world_simps:
  "tile_dir empty_world = Directory []" "output_writable empty_world"
  "output_file empty_world = None"
  by (simp_all add: empty_world_def)

lemma path_lookup_empty: "path_lookup (Directory []) name = None"
  by (simp add: path_lookup_def)

lemma traverse_original_empty: "\<exists>st. traverse_original L (Directory []) = Inr st"
  by (rule traverse_original_completes) (simp add: path_lookup_empty)

lemma traverse_v1_empty: "\<exists>st. traverse_v1 L p (Directory []) = Inr st"
  by (rule traverse_v1_completes) (simp add: path_lookup_empty)

section \<open>The claims\<close>

text \<open>
  C5. The canvas that \<^verbatim>\<open>assemble-original-map.py\<close> has assembled when its loops end is
  \<open>TILE_SIZE * GRID_SIZE\<close> pixels wide and high, 18432 x 18432, and that is the image it
  saves. The canvas that \<^verbatim>\<open>assemble-v1-map.py\<close> has assembled is \<open>TILE_SIZE * GRID_COLS\<close>
  wide and \<open>TILE_SIZE * GRID_ROWS\<close> high, 3072 x 3072; the image it saves is one resample
  of that whole canvas, made after the loops, to \<open>(GAME_SIZE, GAME_SIZE)\<close>, 6144 x 6144.
  The script takes both sides of its canvas from \<open>ASSEMBLED_SIZE = TILE_SIZE * GRID_COLS\<close>;
  the height is \<open>TILE_SIZE * GRID_ROWS\<close> because \<open>GRID_ROWS\<close> and \<open>GRID_COLS\<close> are both 3.
\<close>

theorem canvas_dimensions:
  assumes "assemble_map_original L w = Inr (out, w')"
    and "assemble_map_v1 L p v = Inr (out1, v')"
  shows "(\<exists>st. traverse_original L (tile_dir w) = Inr st
            \<and> im_size (output_image st) = (TILE_SIZE * GRID_SIZE, TILE_SIZE * GRID_SIZE)
            \<and> im_size (output_image st) = (18432, 18432)
            \<and> output_file w' = Some (output_image st))
       \<and> (\<exists>st. traverse_v1 L p (tile_dir v) = Inr st
            \<and> im_size (output_image st) = (TILE_SIZE * GRID_COLS, TILE_SIZE * GRID_ROWS)
            \<and> im_size (output_image st) = (3072, 3072)
            \<and> output_file v' = Some (resize L (output_image st) (GAME_SIZE, GAME_SIZE))
            \<and> im_size (resize L (output_image st) (GAME_SIZE, GAME_SIZE)) = (6144, 6144))"
proof
  from assms(1) obtain st where t: "traverse_original L (tile_dir w) = Inr st"
    and w': "w' = w\<lparr>output_file := Some (output_image st)\<rparr>"
    by (rule assemble_map_original_Inr)
  have "im_size (output_image st) = (OUTPUT_SIZE, OUTPUT_SIZE)"
    by (rule traverse_original_size[OF t])
  then have "im_size (output_image st) = (TILE_SIZE * GRID_SIZE, TILE_SIZE * GRID_SIZE)"
    "im_size (output_image st) = (18432, 18432)"
    by (simp_all add: OUTPUT_SIZE_def TILE_SIZE_def GRID_SIZE_def)
  with t w' show "\<exists>st. traverse_original L (tile_dir w) = Inr st
            \<and> im_size (output_image st) = (TILE_SIZE * GRID_SIZE, TILE_SIZE * GRID_SIZE)
            \<and> im_size (output_image st) = (18432, 18432)
            \<and> output_file w' = Some (output_image st)"
    by simp
next
  from assms(2) obtain st where t: "traverse_v1 L p (tile_dir v) = Inr st"
    and v': "v' = v\<lparr>output_file := Some (resize L (output_image st) (GAME_SIZE, GAME_SIZE))\<rparr>"
    by (rule assemble_map_v1_Inr)
  have "im_size (output_image st) = (ASSEMBLED_SIZE, ASSEMBLED_SIZE)"
    by (rule traverse_v1_size[OF t])
  then have "im_size (output_image st) = (TILE_SIZE * GRID_COLS, TILE_SIZE * GRID_ROWS)"
    "im_size (output_image st) = (3072, 3072)"
    by (simp_all add: ASSEMBLED_SIZE_def TILE_SIZE_def GRID_ROWS_def GRID_COLS_def)
  moreover have "im_size (resize L (output_image st) (GAME_SIZE, GAME_SIZE)) = (6144, 6144)"
    by (simp add: resize_def im_size_def GAME_SIZE_def)
  ultimately show "\<exists>st. traverse_v1 L p (tile_dir v) = Inr st
            \<and> im_size (output_image st) = (TILE_SIZE * GRID_COLS, TILE_SIZE * GRID_ROWS)
            \<and> im_size (output_image st) = (3072, 3072)
            \<and> output_file v' = Some (resize L (output_image st) (GAME_SIZE, GAME_SIZE))
            \<and> im_size (resize L (output_image st) (GAME_SIZE, GAME_SIZE)) = (6144, 6144)"
    using t v' by simp
qed

theorem canvas_dimensions_witness:
  "\<exists>out w' out1 v'.
     assemble_map_original nearest empty_world = Inr (out, w')
     \<and> assemble_map_v1 nearest example_paths empty_world = Inr (out1, v')
     \<and> (\<exists>im. output_file w' = Some im \<and> im_size im = (18432, 18432))
     \<and> (\<exists>im. output_file v' = Some im \<and> im_size im = (6144, 6144))"
proof -
  obtain st where "traverse_original nearest (tile_dir empty_world) = Inr st"
    using traverse_original_empty[of nearest] by (auto simp: empty_world_simps)
  from assemble_map_original_completes[OF this empty_world_simps(2)]
  obtain out w' where a: "assemble_map_original nearest empty_world = Inr (out, w')" by blast
  obtain st1 where "traverse_v1 nearest example_paths (tile_dir empty_world) = Inr st1"
    using traverse_v1_empty[of nearest example_paths] by (auto simp: empty_world_simps)
  from assemble_map_v1_completes[OF this empty_world_simps(2)]
  obtain out1 v' where b: "assemble_map_v1 nearest example_paths empty_world = Inr (out1, v')"
    by blast
  from canvas_dimensions[OF a b] a b show ?thesis by metis
qed

subsection \<open>How the scripts end\<close>

lemma main_original_Absent:
  assumes "tile_dir w = Absent"
  shows "main_original L w =
     Exited 1
       [Msg ''Error: Tile directory '{TILE_DIR}' not found!'' [S TILE_DIR_original],
        Msg ''Current directory: {os.getcwd()}'' [S (cwd w)]]
       w"
  using assms by (simp add: main_original_def)

lemma main_v1_Absent:
  assumes "tile_dir w = Absent"
  shows "main_v1 L p w =
     Exited 1
       [Msg ''Error: Tile directory '{TILE_DIR}' not found!'' [S (TILE_DIR_v1 p)],
        Msg ''Current directory: {os.getcwd()}'' [S (cwd w)]]
       w"
  using assms by (simp add: main_v1_def)

lemma main_original_Inl:
  assumes "tile_dir w \<noteq> Absent" and "assemble_map_original L w = Inl e"
  shows "\<exists>e'. main_original L w = Crashed e' w"
  using assms by (cases "tile_dir w") (simp_all add: main_original_def os_listdir_def Let_def)

lemma main_v1_Inl:
  assumes "tile_dir w \<noteq> Absent" and "assemble_map_v1 L p w = Inl e"
  shows "\<exists>e'. main_v1 L p w = Crashed e' w"
  using assms by (cases "tile_dir w") (simp_all add: main_v1_def os_listdir_def Let_def)

lemma assemble_map_original_fails:
  assumes "traverse_original L (tile_dir w) = Inl e"
  shows "assemble_map_original L w = Inl e"
  using assms by (simp add: assemble_map_original_def)

lemma assemble_map_v1_fails:
  assumes "traverse_v1 L p (tile_dir w) = Inl e"
  shows "assemble_map_v1 L p w = Inl e"
  using assms by (simp add: assemble_map_v1_def)


lemma main_original_result:
  assumes "tile_dir w = Directory es"
  shows "exit_code (main_original L w) =
      (case traverse_original L (tile_dir w) of
         Inl e \<Rightarrow> 1 | Inr st \<Rightarrow> if output_writable w then 0 else 1)"
    and "output_file (final_world (main_original L w)) =
      (case traverse_original L (tile_dir w) of
         Inl e \<Rightarrow> output_file w
       | Inr st \<Rightarrow> if output_writable w then Some (output_image st) else output_file w)"
  using assms
  by (simp_all add: main_original_def os_listdir_def Let_def assemble_map_original_def
      Image_save_def split: sum.splits)

lemma main_v1_result:
  assumes "tile_dir w = Directory es"
  shows "exit_code (main_v1 L p w) =
      (case traverse_v1 L p (tile_dir w) of
         Inl e \<Rightarrow> 1 | Inr st \<Rightarrow> if output_writable w then 0 else 1)"
    and "output_file (final_world (main_v1 L p w)) =
      (case traverse_v1 L p (tile_dir w) of
         Inl e \<Rightarrow> output_file w
       | Inr st \<Rightarrow> if output_writable w
                  then Some (resize L (output_image st) (GAME_SIZE, GAME_SIZE)) else output_file w)"
  using assms
  by (simp_all add: main_v1_def os_listdir_def Let_def assemble_map_v1_def
      Image_save_def split: sum.splits)

lemma assemble_map_original_again:
  assumes "assemble_map_original L w = Inr (out, w')"
  shows "assemble_map_original L w' = Inr (out, w')"
proof -
  from assms obtain st where t: "traverse_original L (tile_dir w) = Inr st"
    and wr: "output_writable w" and w': "w' = w\<lparr>output_file := Some (output_image st)\<rparr>"
    by (rule assemble_map_original_Inr)
  from assms t wr w' show ?thesis
    by (simp add: assemble_map_original_def Image_save_def)
qed

lemma assemble_map_v1_again:
  assumes "assemble_map_v1 L p w = Inr (out, w')"
  shows "assemble_map_v1 L p w' = Inr (out, w')"
proof -
  from assms obtain st where t: "traverse_v1 L p (tile_dir w) = Inr st"
    and wr: "output_writable w"
    and w': "w' = w\<lparr>output_file := Some (resize L (output_image st) (GAME_SIZE, GAME_SIZE))\<rparr>"
    by (rule assemble_map_v1_Inr)
  from assms t wr w' show ?thesis
    by (simp add: assemble_map_v1_def Image_save_def Let_def)
qed

lemma main_original_again:
  "main_original L (final_world (main_original L w)) = main_original L w"
proof (cases "tile_dir w")
  case Absent
  then show ?thesis by (simp add: main_original_def)
next
  case Not_a_directory
  then show ?thesis by (simp add: main_original_def os_listdir_def)
next
  case (Directory es)
  show ?thesis
  proof (cases "assemble_map_original L w")
    case (Inl e)
    with Directory show ?thesis by (simp add: main_original_def os_listdir_def)
  next
    case (Inr res)
    obtain out w' where res: "res = (out, w')" by (cases res)
    from Inr res have a: "assemble_map_original L w = Inr (out, w')" by simp
    then obtain st where "traverse_original L (tile_dir w) = Inr st" "output_writable w"
      and w': "w' = w\<lparr>output_file := Some (output_image st)\<rparr>"
      by (rule assemble_map_original_Inr)
    from w' Directory have d': "tile_dir w' = Directory es" by simp
    from assemble_map_original_again[OF a] a Directory d' show ?thesis
      by (simp add: main_original_def os_listdir_def)
  qed
qed

lemma main_v1_again:
  "main_v1 L p (final_world (main_v1 L p w)) = main_v1 L p w"
proof (cases "tile_dir w")
  case Absent
  then show ?thesis by (simp add: main_v1_def)
next
  case Not_a_directory
  then show ?thesis by (simp add: main_v1_def os_listdir_def)
next
  case (Directory es)
  show ?thesis
  proof (cases "assemble_map_v1 L p w")
    case (Inl e)
    with Directory show ?thesis by (simp add: main_v1_def os_listdir_def)
  next
    case (Inr res)
    obtain out w' where res: "res = (out, w')" by (cases res)
    from Inr res have a: "assemble_map_v1 L p w = Inr (out, w')" by simp
    then obtain st where "traverse_v1 L p (tile_dir w) = Inr st" "output_writable w"
      and w': "w' = w\<lparr>output_file := Some (resize L (output_image st) (GAME_SIZE, GAME_SIZE))\<rparr>"
      by (rule assemble_map_v1_Inr)
    from w' Directory have d': "tile_dir w' = Directory es" by simp
    from assemble_map_v1_again[OF a] a Directory d' show ?thesis
      by (simp add: main_v1_def os_listdir_def)
  qed
qed

text \<open>
  C9. A run leaves the tile directory as it found it and never reads what the output
  path held, so a second run, started in the world the first one left, ends exactly as
  the first did: the same exit status, the same printed lines and the same stored image.
  This holds whether the first run saved an image, crashed or stopped at the directory
  check.
\<close>

theorem second_run_is_identical:
  "main_original L (final_world (main_original L w)) = main_original L w
   \<and> main_v1 L p (final_world (main_v1 L p w)) = main_v1 L p w"
  by (simp add: main_original_again main_v1_again)

text \<open>
  C8. When nothing exists at \<^verbatim>\<open>TILE_DIR\<close>, either script prints its two lines of
  diagnosis and exits with status 1 before \<^verbatim>\<open>assemble_map\<close> is called; the world, and with
  it the output path, is as it was. When the directory exists, the output can be written
  and every expected tile is either missing or a file that decodes, the exit status is 0,
  however many tiles are missing.
\<close>

theorem missing_directory_is_fatal:
  assumes "tile_dir w = Absent"
    and "tile_dir v = Directory es" and "output_writable v"
    and "\<And>c r. c < GRID_SIZE \<Longrightarrow> r < GRID_SIZE \<Longrightarrow>
      path_lookup (tile_dir v) (str (START_TILE + c * GRID_SIZE + r) @ ''.jpg'') \<noteq> Some Undecodable"
    and "\<And>row col. 1 \<le> row \<Longrightarrow> row \<le> GRID_ROWS \<Longrightarrow> 1 \<le> col \<Longrightarrow> col \<le> GRID_COLS \<Longrightarrow>
      path_lookup (tile_dir v) (str row @ ''-'' @ str col @ ''.png'') \<noteq> Some Undecodable"
  shows "main_original L w =
           Exited 1
             [Msg ''Error: Tile directory '{TILE_DIR}' not found!'' [S TILE_DIR_original],
              Msg ''Current directory: {os.getcwd()}'' [S (cwd w)]]
             w
       \<and> main_v1 L p w =
           Exited 1
             [Msg ''Error: Tile directory '{TILE_DIR}' not found!'' [S (TILE_DIR_v1 p)],
              Msg ''Current directory: {os.getcwd()}'' [S (cwd w)]]
             w
       \<and> exit_code (main_original L v) = 0
       \<and> exit_code (main_v1 L p v) = 0"
proof -
  obtain st where "traverse_original L (tile_dir v) = Inr st"
    using traverse_original_completes[of "tile_dir v" L] assms(4) by blast
  then have a: "exit_code (main_original L v) = 0"
    using main_original_result(1)[OF assms(2), of L] assms(3) by simp
  obtain st1 where "traverse_v1 L p (tile_dir v) = Inr st1"
    using traverse_v1_completes[of "tile_dir v" L p] assms(5) by blast
  then have b: "exit_code (main_v1 L p v) = 0"
    using main_v1_result(1)[OF assms(2), of L p] assms(3) by simp
  from a b main_original_Absent[OF assms(1), of L] main_v1_Absent[OF assms(1), of L p]
  show ?thesis by simp
qed

theorem missing_directory_is_fatal_witness:
  "exit_code (main_original nearest absent_world) = 1
   \<and> final_world (main_original nearest absent_world) = absent_world
   \<and> exit_code (main_v1 nearest example_paths absent_world) = 1
   \<and> final_world (main_v1 nearest example_paths absent_world) = absent_world
   \<and> exit_code (main_original nearest empty_world) = 0
   \<and> exit_code (main_v1 nearest example_paths empty_world) = 0"
proof -
  have 1: "tile_dir absent_world = Absent" by (simp add: absent_world_def)
  have 4: "\<And>c r. c < GRID_SIZE \<Longrightarrow> r < GRID_SIZE \<Longrightarrow>
      path_lookup (tile_dir empty_world) (str (START_TILE + c * GRID_SIZE + r) @ ''.jpg'') \<noteq> Some Undecodable"
    by (simp add: empty_world_simps path_lookup_empty)
  have 5: "\<And>row col. 1 \<le> row \<Longrightarrow> row \<le> GRID_ROWS \<Longrightarrow> 1 \<le> col \<Longrightarrow> col \<le> GRID_COLS \<Longrightarrow>
      path_lookup (tile_dir empty_world) (str row @ ''-'' @ str col @ ''.png'') \<noteq> Some Undecodable"
    by (simp add: empty_world_simps path_lookup_empty)
  from missing_directory_is_fatal[OF 1 empty_world_simps(1) empty_world_simps(2) 4 5,
      of nearest example_paths]
  show ?thesis by simp
qed

lemma corrupt_world_simps:
  "tile_dir corrupt_world = Directory [(''75879.jpg'', Undecodable), (''1-1.png'', Undecodable)]"
  "output_file corrupt_world = None"
  by (simp_all add: corrupt_world_def)

lemma str_examples:
  "str (Suc 0) = ''1''" "str 1 = ''1''" "str 75879 = ''75879''" "str 76009 = ''76009''"
  by (simp_all add: str.simps digit_char_def)

lemma corrupt_world_lookup:
  "path_lookup (tile_dir corrupt_world) (str (START_TILE + 0 * GRID_SIZE + 0) @ ''.jpg'') = Some Undecodable"
  "path_lookup (tile_dir corrupt_world) (str 1 @ ''-'' @ str 1 @ ''.png'') = Some Undecodable"
  by (simp_all add: corrupt_world_simps path_lookup_def str_examples START_TILE_def)

text \<open>
  C2, as the claim states it, fails. In \<open>corrupt_world\<close> the tile directory holds
  \<^verbatim>\<open>75879.jpg\<close> and \<^verbatim>\<open>1-1.png\<close>, neither of which decodes. Each script ends with the
  uncaught exception of \<^verbatim>\<open>Image.open\<close> on its first cell, and nothing is saved.
\<close>

theorem undecodable_tile_counterexample:
  "main_original nearest corrupt_world = Crashed (UnidentifiedImageError ''75879.jpg'') corrupt_world
   \<and> main_v1 nearest example_paths corrupt_world = Crashed (UnidentifiedImageError ''1-1.png'') corrupt_world
   \<and> exit_code (main_original nearest corrupt_world) = 1
   \<and> exit_code (main_v1 nearest example_paths corrupt_world) = 1
   \<and> output_file (final_world (main_original nearest corrupt_world)) = None
   \<and> output_file (final_world (main_v1 nearest example_paths corrupt_world)) = None"
proof -
  have c0: "cell_original nearest (tile_dir corrupt_world) 0 0 init_original
      = Inl (UnidentifiedImageError ''75879.jpg'')"
    using cell_original_fails[of init_original "tile_dir corrupt_world" nearest 0 0]
      corrupt_world_lookup(1)
    by (simp add: init_original_simps str_examples START_TILE_def MISSING_TILES_def)
  have "[0..<GRID_SIZE] = 0 # [1..<GRID_SIZE]"
    by (simp add: GRID_SIZE_def upt_conv_Cons)
  then have "traverse_original nearest (tile_dir corrupt_world) = Inl (UnidentifiedImageError ''75879.jpg'')"
    using c0 by (simp add: traverse_original_def)
  then have a: "main_original nearest corrupt_world
      = Crashed (UnidentifiedImageError ''75879.jpg'') corrupt_world"
    by (simp add: main_original_def assemble_map_original_def os_listdir_def corrupt_world_simps)
  have c1: "cell_v1 nearest (tile_dir corrupt_world) 1 1 (init_v1 example_paths)
      = Inl (UnidentifiedImageError ''1-1.png'')"
    using cell_v1_undecodable[OF corrupt_world_lookup(2), of nearest "init_v1 example_paths"]
    by (simp add: str_examples)
  have "[1..<GRID_ROWS + 1] = 1 # [2..<GRID_ROWS + 1]" "[1..<GRID_COLS + 1] = 1 # [2..<GRID_COLS + 1]"
    by (simp_all add: GRID_ROWS_def GRID_COLS_def upt_conv_Cons)
  then have "traverse_v1 nearest example_paths (tile_dir corrupt_world)
      = Inl (UnidentifiedImageError ''1-1.png'')"
    using c1 by (simp add: traverse_v1_def)
  then have b: "main_v1 nearest example_paths corrupt_world
      = Crashed (UnidentifiedImageError ''1-1.png'') corrupt_world"
    by (simp add: main_v1_def assemble_map_v1_def os_listdir_def corrupt_world_simps)
  from a b show ?thesis by (simp add: corrupt_world_simps)
qed

text \<open>
  C2, amended. A file that lies in the tile directory under the name of a tile of the
  grid (for \<^verbatim>\<open>assemble-original-map.py\<close>, a tile that is not in \<open>MISSING_TILES\<close>) and does
  not decode ends the run: the exception leaves \<^verbatim>\<open>assemble_map\<close>, nobody catches it, the
  exit status is 1 and the world is as it was, so no image is saved.
\<close>

theorem undecodable_tile_aborts:
  assumes "c < GRID_SIZE" and "r < GRID_SIZE"
    and "START_TILE + c * GRID_SIZE + r \<notin> set MISSING_TILES"
    and "path_lookup (tile_dir w) (str (START_TILE + c * GRID_SIZE + r) @ ''.jpg'') = Some Undecodable"
    and "1 \<le> row" and "row \<le> GRID_ROWS" and "1 \<le> col" and "col \<le> GRID_COLS"
    and "path_lookup (tile_dir v) (str row @ ''-'' @ str col @ ''.png'') = Some Undecodable"
  shows "(\<exists>e. main_original L w = Crashed e w)
       \<and> exit_code (main_original L w) = 1 \<and> final_world (main_original L w) = w
       \<and> (\<exists>e. main_v1 L p v = Crashed e v)
       \<and> exit_code (main_v1 L p v) = 1 \<and> final_world (main_v1 L p v) = v"
proof -
  from assms(4) have dw: "tile_dir w \<noteq> Absent" by (auto simp: path_lookup_def)
  from traverse_original_fails[OF assms(1-4), of L]
  obtain e where "traverse_original L (tile_dir w) = Inl e" ..
  then have "assemble_map_original L w = Inl e" by (rule assemble_map_original_fails)
  from main_original_Inl[OF dw this] obtain e' where a: "main_original L w = Crashed e' w" ..
  from assms(9) have dv: "tile_dir v \<noteq> Absent" by (auto simp: path_lookup_def)
  from traverse_v1_fails[OF assms(5-9), of L p]
  obtain e1 where "traverse_v1 L p (tile_dir v) = Inl e1" ..
  then have "assemble_map_v1 L p v = Inl e1" by (rule assemble_map_v1_fails)
  from main_v1_Inl[OF dv this] obtain e1' where b: "main_v1 L p v = Crashed e1' v" ..
  from a b show ?thesis by simp
qed

theorem undecodable_tile_aborts_witness:
  "path_lookup (tile_dir corrupt_world) (str (START_TILE + 0 * GRID_SIZE + 0) @ ''.jpg'') = Some Undecodable
   \<and> path_lookup (tile_dir corrupt_world) (str 1 @ ''-'' @ str 1 @ ''.png'') = Some Undecodable
   \<and> exit_code (main_original nearest corrupt_world) = 1
   \<and> final_world (main_original nearest corrupt_world) = corrupt_world
   \<and> exit_code (main_v1 nearest example_paths corrupt_world) = 1
   \<and> final_world (main_v1 nearest example_paths corrupt_world) = corrupt_world"
proof -
  have g: "(0::nat) < GRID_SIZE" "(1::nat) \<le> GRID_ROWS" "(1::nat) \<le> GRID_COLS"
    by (simp_all add: GRID_SIZE_def GRID_ROWS_def GRID_COLS_def)
  have m: "START_TILE + 0 * GRID_SIZE + 0 \<notin> set MISSING_TILES"
    by (simp add: START_TILE_def MISSING_TILES_def)
  from undecodable_tile_aborts[OF g(1) g(1) m corrupt_world_lookup(1) order_refl g(2) order_refl g(3)
      corrupt_world_lookup(2), of nearest example_paths]
    corrupt_world_lookup
  show ?thesis by simp
qed

lemma cluttered_world_simps:
  "tile_dir cluttered_world = Directory [(''README'', Undecodable)]"
  "output_file cluttered_world = None" "output_writable cluttered_world"
  by (simp_all add: cluttered_world_def)

lemma README_is_no_tile:
  "path_lookup (tile_dir cluttered_world) (s @ ''.jpg'') = None"
  "path_lookup (tile_dir cluttered_world) (s @ ''.png'') = None"
proof -
  have a: "''README'' \<noteq> s @ ''.jpg''"
  proof
    assume "''README'' = s @ ''.jpg''"
    then have "last ''README'' = last (s @ ''.jpg'')" by (rule arg_cong)
    then show False by simp
  qed
  have b: "''README'' \<noteq> s @ ''.png''"
  proof
    assume "''README'' = s @ ''.png''"
    then have "last ''README'' = last (s @ ''.png'')" by (rule arg_cong)
    then show False by simp
  qed
  from a show "path_lookup (tile_dir cluttered_world) (s @ ''.jpg'') = None"
    by (simp add: cluttered_world_simps path_lookup_def)
  from b show "path_lookup (tile_dir cluttered_world) (s @ ''.png'') = None"
    by (simp add: cluttered_world_simps path_lookup_def)
qed

text \<open>
  C10. What either script saves, and how it exits, depends on the tile directory only
  through the files under the names of the grid's tiles (\<open>GRID_SIZE * GRID_SIZE\<close> names
  \<^verbatim>\<open>{tile_num}.jpg\<close>, \<open>GRID_ROWS * GRID_COLS\<close> names \<^verbatim>\<open>{row}-{col}.png\<close>). Two worlds
  whose directories agree on these names, and that agree on the output path, end with
  the same exit status and the same stored image, whatever else the directories hold.
  The listing of the directory reaches the printed lines only.
\<close>

theorem output_depends_on_expected_tiles_only:
  assumes "tile_dir w = Directory es" and "tile_dir w' = Directory es'"
    and "output_writable w = output_writable w'" and "output_file w = output_file w'"
    and "\<And>c r. c < GRID_SIZE \<Longrightarrow> r < GRID_SIZE \<Longrightarrow>
        path_lookup (tile_dir w) (str (START_TILE + c * GRID_SIZE + r) @ ''.jpg'')
      = path_lookup (tile_dir w') (str (START_TILE + c * GRID_SIZE + r) @ ''.jpg'')"
    and "\<And>row col. 1 \<le> row \<Longrightarrow> row \<le> GRID_ROWS \<Longrightarrow> 1 \<le> col \<Longrightarrow> col \<le> GRID_COLS \<Longrightarrow>
        path_lookup (tile_dir w) (str row @ ''-'' @ str col @ ''.png'')
      = path_lookup (tile_dir w') (str row @ ''-'' @ str col @ ''.png'')"
  shows "output_file (final_world (main_original L w)) = output_file (final_world (main_original L w'))
       \<and> exit_code (main_original L w) = exit_code (main_original L w')
       \<and> output_file (final_world (main_v1 L p w)) = output_file (final_world (main_v1 L p w'))
       \<and> exit_code (main_v1 L p w) = exit_code (main_v1 L p w')"
proof -
  have t: "traverse_original L (tile_dir w) = traverse_original L (tile_dir w')"
    by (rule traverse_original_cong) (use assms(5) in blast)
  have t1: "traverse_v1 L p (tile_dir w) = traverse_v1 L p (tile_dir w')"
    by (rule traverse_v1_cong) (use assms(6) in blast)
  show ?thesis
    unfolding main_original_result[OF assms(1)] main_original_result[OF assms(2)]
      main_v1_result[OF assms(1)] main_v1_result[OF assms(2)] t t1 assms(3) assms(4)
    by simp
qed

theorem output_depends_on_expected_tiles_only_witness:
  "tile_dir empty_world \<noteq> tile_dir cluttered_world
   \<and> output_file (final_world (main_original nearest empty_world))
       = output_file (final_world (main_original nearest cluttered_world))
   \<and> exit_code (main_original nearest empty_world) = exit_code (main_original nearest cluttered_world)
   \<and> output_file (final_world (main_v1 nearest example_paths empty_world))
       = output_file (final_world (main_v1 nearest example_paths cluttered_world))
   \<and> exit_code (main_v1 nearest example_paths empty_world)
       = exit_code (main_v1 nearest example_paths cluttered_world)"
proof -
  have 3: "output_writable empty_world = output_writable cluttered_world"
    and 4: "output_file empty_world = output_file cluttered_world"
    by (simp_all add: empty_world_simps cluttered_world_simps)
  have 5: "\<And>c r. c < GRID_SIZE \<Longrightarrow> r < GRID_SIZE \<Longrightarrow>
        path_lookup (tile_dir empty_world) (str (START_TILE + c * GRID_SIZE + r) @ ''.jpg'')
      = path_lookup (tile_dir cluttered_world) (str (START_TILE + c * GRID_SIZE + r) @ ''.jpg'')"
    by (simp add: empty_world_simps path_lookup_empty README_is_no_tile)
  have 6: "\<And>row col. 1 \<le> row \<Longrightarrow> row \<le> GRID_ROWS \<Longrightarrow> 1 \<le> col \<Longrightarrow> col \<le> GRID_COLS \<Longrightarrow>
        path_lookup (tile_dir empty_world) (str row @ ''-'' @ str col @ ''.png'')
      = path_lookup (tile_dir cluttered_world) (str row @ ''-'' @ str col @ ''.png'')"
    using README_is_no_tile(2)[of "str row @ ''-'' @ str col" for row col]
    by (simp add: empty_world_simps path_lookup_empty)
  from output_depends_on_expected_tiles_only[OF empty_world_simps(1) cluttered_world_simps(1) 3 4 5 6,
      of nearest example_paths]
  show ?thesis by (simp add: empty_world_simps cluttered_world_simps)
qed

subsection \<open>Tile numbers and file names\<close>

lemma digit_char_code:
  assumes "a < 10"
  shows "(of_char (digit_char a) :: nat) = 48 + a"
  using assms by (simp add: digit_char_def)

lemma digit_char_inj:
  assumes "a < 10" "b < 10" "digit_char a = digit_char b"
  shows "a = b"
proof -
  have "(of_char (digit_char a) :: nat) = of_char (digit_char b)" using assms(3) by simp
  then show ?thesis
    unfolding digit_char_code[OF assms(1)] digit_char_code[OF assms(2)] by simp
qed

lemma str_small: "n < 10 \<Longrightarrow> str n = [digit_char n]"
  by (subst str.simps) simp

lemma str_large: "\<not> n < 10 \<Longrightarrow> str n = str (n div 10) @ [digit_char (n mod 10)]"
  by (subst str.simps) simp

lemma str_nonempty: "str n \<noteq> []"
  by (cases "n < 10") (simp_all add: str_small str_large)

lemma str_inj:
  "str n = str m \<Longrightarrow> n = m"
proof (induction n arbitrary: m rule: str.induct)
  case (1 n)
  show ?case
  proof (cases "n < 10")
    case True
    show ?thesis
    proof (cases "m < 10")
      case m: True
      from "1.prems" True m have "digit_char n = digit_char m" by (simp add: str_small)
      with True m show ?thesis by (rule digit_char_inj)
    next
      case m: False
      from "1.prems" True m have "[digit_char n] = str (m div 10) @ [digit_char (m mod 10)]"
        by (simp add: str_small str_large)
      then have "str (m div 10) = []" by simp
      with str_nonempty show ?thesis by blast
    qed
  next
    case False
    show ?thesis
    proof (cases "m < 10")
      case m: True
      from "1.prems" False m have "str (n div 10) @ [digit_char (n mod 10)] = [digit_char m]"
        by (simp add: str_small str_large)
      then have "str (n div 10) = []" by simp
      with str_nonempty show ?thesis by blast
    next
      case m: False
      from "1.prems" False m
      have "str (n div 10) @ [digit_char (n mod 10)] = str (m div 10) @ [digit_char (m mod 10)]"
        by (simp add: str_large)
      then have a: "str (n div 10) = str (m div 10)"
        and b: "digit_char (n mod 10) = digit_char (m mod 10)" by simp_all
      from "1.IH"[OF False a] have d: "n div 10 = m div 10" .
      have "n mod 10 = m mod 10" by (rule digit_char_inj[OF _ _ b]) simp_all
      with d show ?thesis by (metis div_mult_mod_eq)
    qed
  qed
qed

subsection \<open>The pixels of a cell\<close>

lemma in_cell_iff:
  "in_cell c r x y \<longleftrightarrow>
     c * TILE_SIZE \<le> x \<and> x < Suc c * TILE_SIZE \<and> r * TILE_SIZE \<le> y \<and> y < Suc r * TILE_SIZE"
  by (simp add: in_cell_def add.commute)

lemma create_blank_tile_simps:
  "im_size create_blank_tile = (TILE_SIZE, TILE_SIZE)" "px create_blank_tile x y = black"
  by (simp_all add: create_blank_tile_def Image_new_def im_size_def)

lemma load_tile_original_missing:
  assumes "tile_num st \<in> set MISSING_TILES"
  shows "load_tile_original L d c r st =
     Inr (create_blank_tile,
          st\<lparr>stdout := stdout st @
                [Msg ''  Missing tile {tile_num} at column {col+1}, row {row+1} - using black placeholder''
                   [N (tile_num st), N (c + 1), N (r + 1)]],
             tiles_missing := tiles_missing st + 1\<rparr>)"
  using assms by (simp add: load_tile_original_def)

lemma load_tile_original_absent:
  assumes "tile_num st \<notin> set MISSING_TILES"
    and "path_lookup d (str (tile_num st) @ ''.jpg'') = None"
  shows "load_tile_original L d c r st =
     Inr (create_blank_tile,
          st\<lparr>stdout := stdout st @
                [Msg ''  Warning: tile {tile_num} not found at {tile_path} - using black placeholder''
                   [N (tile_num st), S (TILE_DIR_original @ ''/'' @ str (tile_num st) @ ''.jpg'')]],
             tiles_missing := tiles_missing st + 1\<rparr>)"
  using assms by (simp add: load_tile_original_def os_path_exists_def Let_def)

lemma load_tile_original_resized:
  assumes "tile_num st \<notin> set MISSING_TILES"
    and "path_lookup d (str (tile_num st) @ ''.jpg'') = Some (Decodable im)"
    and "im_size im \<noteq> (TILE_SIZE, TILE_SIZE)"
  shows "load_tile_original L d c r st =
     Inr (resize L im (TILE_SIZE, TILE_SIZE),
          st\<lparr>stdout := stdout st @
                [Msg ''  Warning: tile {tile_num} has unexpected size {tile.size}, resizing...''
                   [N (tile_num st), Size (im_size im)]],
             tiles_processed := tiles_processed st + 1\<rparr>)"
  using assms by (simp add: load_tile_original_def os_path_exists_def Image_open_def Let_def)

lemma load_tile_original_fitting:
  assumes "tile_num st \<notin> set MISSING_TILES"
    and "path_lookup d (str (tile_num st) @ ''.jpg'') = Some (Decodable im)"
    and "im_size im = (TILE_SIZE, TILE_SIZE)"
  shows "load_tile_original L d c r st = Inr (im, st\<lparr>tiles_processed := tiles_processed st + 1\<rparr>)"
  using assms by (simp add: load_tile_original_def os_path_exists_def Image_open_def Let_def)


lemma load_tile_original_undecodable:
  assumes "tile_num st \<notin> set MISSING_TILES"
    and "path_lookup d (str (tile_num st) @ ''.jpg'') = Some Undecodable"
  shows "load_tile_original L d c r st = Inl (UnidentifiedImageError (str (tile_num st) @ ''.jpg''))"
  using assms by (simp add: load_tile_original_def os_path_exists_def Image_open_def Let_def)

lemma traverse_original_pixel:
  assumes run: "traverse_original L d = Inr st'" and c: "c < GRID_SIZE" and r: "r < GRID_SIZE"
    and cell: "in_cell c r x y"
  shows "px (output_image st') x y =
     (if START_TILE + c * GRID_SIZE + r \<in> set MISSING_TILES then black
      else case path_lookup d (str (START_TILE + c * GRID_SIZE + r) @ ''.jpg'') of
             None \<Rightarrow> black
           | Some Undecodable \<Rightarrow> black
           | Some (Decodable im) \<Rightarrow>
               px (if im_size im \<noteq> (TILE_SIZE, TILE_SIZE) then resize L im (TILE_SIZE, TILE_SIZE) else im)
                 (x - c * TILE_SIZE) (y - r * TILE_SIZE))"
proof -
  let ?n = "START_TILE + c * GRID_SIZE + r"
  from traverse_original_cell[OF run c r]
  obtain st tile st1 where num: "tile_num st = ?n"
    and load: "load_tile_original L d c r st = Inr (tile, st1)"
    and pix: "\<And>x y. c * TILE_SIZE \<le> x \<Longrightarrow> x < Suc c * TILE_SIZE \<Longrightarrow> r * TILE_SIZE \<le> y \<Longrightarrow>
       y < Suc r * TILE_SIZE \<Longrightarrow>
       px (output_image st') x y = px tile (x - c * TILE_SIZE) (y - r * TILE_SIZE)"
    by blast
  from cell have p: "px (output_image st') x y = px tile (x - c * TILE_SIZE) (y - r * TILE_SIZE)"
    unfolding in_cell_iff by (intro pix) simp_all
  show ?thesis
  proof (cases "?n \<in> set MISSING_TILES")
    case True
    with num have "tile_num st \<in> set MISSING_TILES" by simp
    from load_tile_original_missing[OF this, of L d c r] load have "tile = create_blank_tile" by simp
    with p True show ?thesis by (simp add: create_blank_tile_simps)
  next
    case False
    with num have nm: "tile_num st \<notin> set MISSING_TILES" by simp
    show ?thesis
    proof (cases "path_lookup d (str ?n @ ''.jpg'')")
      case None
      with num have "path_lookup d (str (tile_num st) @ ''.jpg'') = None" by simp
      from load_tile_original_absent[OF nm this, of L c r] load have "tile = create_blank_tile" by simp
      with p False None show ?thesis by (simp add: create_blank_tile_simps)
    next
      case (Some f)
      show ?thesis
      proof (cases f)
        case Undecodable
        with Some num have "path_lookup d (str (tile_num st) @ ''.jpg'') = Some Undecodable" by simp
        from load_tile_original_undecodable[OF nm this, of L c r] load show ?thesis by simp
      next
        case (Decodable im)
        with Some num have l: "path_lookup d (str (tile_num st) @ ''.jpg'') = Some (Decodable im)"
          by simp
        have "tile = (if im_size im \<noteq> (TILE_SIZE, TILE_SIZE) then resize L im (TILE_SIZE, TILE_SIZE) else im)"
        proof (cases "im_size im = (TILE_SIZE, TILE_SIZE)")
          case True
          from load_tile_original_fitting[OF nm l True, of L c r] load True show ?thesis by simp
        next
          case False
          from load_tile_original_resized[OF nm l False, of L c r] load False show ?thesis by simp
        qed
        with p \<open>?n \<notin> set MISSING_TILES\<close> Some Decodable show ?thesis by simp
      qed
    qed
  qed
qed

lemma cell_v1_resized:
  assumes "path_lookup d (str row @ ''-'' @ str col @ ''.png'') = Some (Decodable im)"
    and "im_size im \<noteq> (TILE_SIZE, TILE_SIZE)"
  shows "\<exists>st'. cell_v1 L d row col st = Inr st'
     \<and> output_image st' =
         paste (output_image st) (resize L im (TILE_SIZE, TILE_SIZE))
           ((col - 1) * TILE_SIZE, (row - 1) * TILE_SIZE)
     \<and> stdout st' = stdout st @
         [Msg ''  Warning: {tile_filename} has size {tile.size}, resizing to {TILE_SIZE}x{TILE_SIZE}''
            [S (str row @ ''-'' @ str col @ ''.png''), Size (im_size im), N TILE_SIZE, N TILE_SIZE],
          Msg ''  Loaded {tile_filename} -> ({x_offset}, {y_offset})''
            [S (str row @ ''-'' @ str col @ ''.png''), N ((col - 1) * TILE_SIZE), N ((row - 1) * TILE_SIZE)]]"
  using assms by (simp add: cell_v1_def Let_def os_path_exists_def Image_open_def)

lemma small_tile_world_simps:
  "tile_dir small_tile_world =
     Directory [(''75879.jpg'', Decodable small_tile), (''1-1.png'', Decodable small_tile)]"
  "output_writable small_tile_world"
  by (simp_all add: small_tile_world_def)

lemma small_tile_size: "im_size small_tile \<noteq> (TILE_SIZE, TILE_SIZE)"
  by (simp add: small_tile_def Image_new_def im_size_def TILE_SIZE_def)

lemma small_tile_world_lookup:
  "path_lookup (tile_dir small_tile_world) (str (START_TILE + 0 * GRID_SIZE + 0) @ ''.jpg'')
     = Some (Decodable small_tile)"
  "path_lookup (tile_dir small_tile_world) (str 1 @ ''-'' @ str 1 @ ''.png'') = Some (Decodable small_tile)"
  by (simp_all add: small_tile_world_simps path_lookup_def str_examples START_TILE_def)

lemma small_tile_world_decodes: "path_lookup (tile_dir small_tile_world) name \<noteq> Some Undecodable"
  by (simp add: small_tile_world_simps path_lookup_def)

text \<open>
  C7. Take a cell of the grid whose tile file decodes to an image \<open>im\<close> of a size other
  than \<open>(TILE_SIZE, TILE_SIZE)\<close> (for \<^verbatim>\<open>assemble-original-map.py\<close>, a tile that is not in
  \<open>MISSING_TILES\<close>). The step of the cell does not raise; it prints the warning and the
  tile it pastes is \<open>resize LANCZOS im (TILE_SIZE, TILE_SIZE)\<close>, whose size is exactly
  \<open>(TILE_SIZE, TILE_SIZE)\<close>. When the traversal has ended, every pixel of the cell's
  region in the canvas is the pixel of the resized tile at the same place in the tile.
\<close>

theorem mismatched_tile_is_resized:
  assumes "c < GRID_SIZE" and "r < GRID_SIZE"
    and "START_TILE + c * GRID_SIZE + r \<notin> set MISSING_TILES"
    and "path_lookup d (str (START_TILE + c * GRID_SIZE + r) @ ''.jpg'') = Some (Decodable im)"
    and "im_size im \<noteq> (TILE_SIZE, TILE_SIZE)"
    and "1 \<le> row" and "row \<le> GRID_ROWS" and "1 \<le> col" and "col \<le> GRID_COLS"
    and "path_lookup d1 (str row @ ''-'' @ str col @ ''.png'') = Some (Decodable im1)"
    and "im_size im1 \<noteq> (TILE_SIZE, TILE_SIZE)"
  shows "im_size (resize L im (TILE_SIZE, TILE_SIZE)) = (TILE_SIZE, TILE_SIZE)
       \<and> (\<forall>st. tile_num st = START_TILE + c * GRID_SIZE + r \<longrightarrow>
            load_tile_original L d c r st =
              Inr (resize L im (TILE_SIZE, TILE_SIZE),
                   st\<lparr>stdout := stdout st @
                         [Msg ''  Warning: tile {tile_num} has unexpected size {tile.size}, resizing...''
                            [N (tile_num st), Size (im_size im)]],
                      tiles_processed := tiles_processed st + 1\<rparr>)
            \<and> (\<exists>st'. cell_original L d c r st = Inr st'))
       \<and> (\<forall>st' x y. traverse_original L d = Inr st' \<longrightarrow> in_cell c r x y \<longrightarrow>
            px (output_image st') x y =
              px (resize L im (TILE_SIZE, TILE_SIZE)) (x - c * TILE_SIZE) (y - r * TILE_SIZE))
       \<and> im_size (resize L im1 (TILE_SIZE, TILE_SIZE)) = (TILE_SIZE, TILE_SIZE)
       \<and> (\<forall>st. \<exists>st'. cell_v1 L d1 row col st = Inr st'
            \<and> output_image st' =
                paste (output_image st) (resize L im1 (TILE_SIZE, TILE_SIZE))
                  ((col - 1) * TILE_SIZE, (row - 1) * TILE_SIZE)
            \<and> stdout st' = stdout st @
                [Msg ''  Warning: {tile_filename} has size {tile.size}, resizing to {TILE_SIZE}x{TILE_SIZE}''
                   [S (str row @ ''-'' @ str col @ ''.png''), Size (im_size im1), N TILE_SIZE, N TILE_SIZE],
                 Msg ''  Loaded {tile_filename} -> ({x_offset}, {y_offset})''
                   [S (str row @ ''-'' @ str col @ ''.png''), N ((col - 1) * TILE_SIZE),
                    N ((row - 1) * TILE_SIZE)]])
       \<and> (\<forall>st' x y. traverse_v1 L p d1 = Inr st' \<longrightarrow> in_cell (col - 1) (row - 1) x y \<longrightarrow>
            px (output_image st') x y =
              px (resize L im1 (TILE_SIZE, TILE_SIZE))
                (x - (col - 1) * TILE_SIZE) (y - (row - 1) * TILE_SIZE))"
proof -
  have 1: "im_size (resize L i (TILE_SIZE, TILE_SIZE)) = (TILE_SIZE, TILE_SIZE)" for i
    by (simp add: resize_def im_size_def)
  have 2: "load_tile_original L d c r st =
              Inr (resize L im (TILE_SIZE, TILE_SIZE),
                   st\<lparr>stdout := stdout st @
                         [Msg ''  Warning: tile {tile_num} has unexpected size {tile.size}, resizing...''
                            [N (tile_num st), Size (im_size im)]],
                      tiles_processed := tiles_processed st + 1\<rparr>)
            \<and> (\<exists>st'. cell_original L d c r st = Inr st')"
    if n: "tile_num st = START_TILE + c * GRID_SIZE + r" for st
  proof
    from n assms(3,4) have nm: "tile_num st \<notin> set MISSING_TILES"
      and l: "path_lookup d (str (tile_num st) @ ''.jpg'') = Some (Decodable im)" by simp_all
    show "load_tile_original L d c r st =
              Inr (resize L im (TILE_SIZE, TILE_SIZE),
                   st\<lparr>stdout := stdout st @
                         [Msg ''  Warning: tile {tile_num} has unexpected size {tile.size}, resizing...''
                            [N (tile_num st), Size (im_size im)]],
                      tiles_processed := tiles_processed st + 1\<rparr>)"
      by (rule load_tile_original_resized[OF nm l assms(5)])
    from l have "path_lookup d (str (tile_num st) @ ''.jpg'') \<noteq> Some Undecodable" by simp
    then show "\<exists>st'. cell_original L d c r st = Inr st'"
      by (intro cell_original_completes) simp
  qed
  have 3: "px (output_image st') x y =
              px (resize L im (TILE_SIZE, TILE_SIZE)) (x - c * TILE_SIZE) (y - r * TILE_SIZE)"
    if "traverse_original L d = Inr st'" "in_cell c r x y" for st' x y
    using traverse_original_pixel[OF that(1) assms(1,2) that(2)] assms(3,4,5) by simp
  have 4: "px (output_image st') x y =
              px (resize L im1 (TILE_SIZE, TILE_SIZE))
                (x - (col - 1) * TILE_SIZE) (y - (row - 1) * TILE_SIZE)"
    if t: "traverse_v1 L p d1 = Inr st'" and i: "in_cell (col - 1) (row - 1) x y" for st' x y
  proof -
    from i have reg: "(col - 1) * TILE_SIZE \<le> x" "x < Suc (col - 1) * TILE_SIZE"
      "(row - 1) * TILE_SIZE \<le> y" "y < Suc (row - 1) * TILE_SIZE"
      unfolding in_cell_iff by simp_all
    from traverse_v1_cell[OF t assms(6-9) reg] assms(10,11) show ?thesis by simp
  qed
  from 1 2 3 4 cell_v1_resized[OF assms(10,11), of L] show ?thesis by blast
qed

theorem mismatched_tile_is_resized_witness:
  "im_size small_tile = (512, 512)
   \<and> im_size (resize nearest small_tile (TILE_SIZE, TILE_SIZE)) = (1024, 1024)
   \<and> (\<exists>st'. cell_original nearest (tile_dir small_tile_world) 0 0 init_original = Inr st')
   \<and> (\<exists>st'. traverse_original nearest (tile_dir small_tile_world) = Inr st'
         \<and> px (output_image st') 1000 1000 = (255, 255, 255))
   \<and> (\<exists>st'. traverse_v1 nearest example_paths (tile_dir small_tile_world) = Inr st'
         \<and> px (output_image st') 1000 1000 = (255, 255, 255))"
proof -
  have g: "(0::nat) < GRID_SIZE" "(1::nat) \<le> GRID_ROWS" "(1::nat) \<le> GRID_COLS"
    by (simp_all add: GRID_SIZE_def GRID_ROWS_def GRID_COLS_def)
  have m: "START_TILE + 0 * GRID_SIZE + 0 \<notin> set MISSING_TILES"
    by (simp add: START_TILE_def MISSING_TILES_def)
  note inst = mismatched_tile_is_resized[OF g(1) g(1) m small_tile_world_lookup(1) small_tile_size
      order_refl g(2) order_refl g(3) small_tile_world_lookup(2) small_tile_size,
      of nearest example_paths]
  have i: "in_cell 0 0 1000 1000" "in_cell (1 - 1) (1 - 1) 1000 1000"
    by (simp_all add: in_cell_def TILE_SIZE_def)
  have n0: "tile_num init_original = START_TILE + 0 * GRID_SIZE + 0"
    by (simp add: init_original_simps)
  have white: "px (resize nearest small_tile (TILE_SIZE, TILE_SIZE)) a b = (255, 255, 255)" for a b
    by (simp add: resize_def nearest_def small_tile_def Image_new_def)
  obtain st where t: "traverse_original nearest (tile_dir small_tile_world) = Inr st"
    using traverse_original_completes[of "tile_dir small_tile_world" nearest]
      small_tile_world_decodes by blast
  obtain st1 where t1: "traverse_v1 nearest example_paths (tile_dir small_tile_world) = Inr st1"
    using traverse_v1_completes[of "tile_dir small_tile_world" nearest example_paths]
      small_tile_world_decodes by blast
  from inst have a: "\<exists>st'. cell_original nearest (tile_dir small_tile_world) 0 0 init_original = Inr st'"
    using n0 by blast
  from inst t i(1) have b: "px (output_image st) 1000 1000 = (255, 255, 255)"
    unfolding white by blast
  from inst t1 i(2) have c: "px (output_image st1) 1000 1000 = (255, 255, 255)"
    unfolding white by blast
  have d: "im_size small_tile = (512, 512)"
    "im_size (resize nearest small_tile (TILE_SIZE, TILE_SIZE)) = (1024, 1024)"
    by (simp_all add: small_tile_def Image_new_def im_size_def resize_def TILE_SIZE_def)
  from a b c d t t1 show ?thesis by blast
qed

lemma upt_split_at:
  assumes "c < n"
  shows "[0..<n] = [0..<c] @ c # [Suc c..<n]"
proof -
  have "[0..<n] = [0..<c] @ [c..<n]"
    using upt_add_eq_append[of 0 c "n - c"] assms by simp
  also have "[c..<n] = c # [Suc c..<n]" using assms by (rule upt_conv_Cons)
  finally show ?thesis .
qed

lemma rows_loop_original_tile_num:
  assumes "for_loop rs (\<lambda>row. cell_original L d c row) st = Inr st'"
  shows "tile_num st' = tile_num st + length rs"
proof -
  have "for_loop (map (Pair c) rs) (\<lambda>(c, r). cell_original L d c r) st = Inr st'"
    using assms by (simp add: for_loop_map)
  from loop_original_tile_num[OF this] show ?thesis by simp
qed

lemma in_cell_unique:
  assumes "in_cell c r x y" and "in_cell c' r' x y"
  shows "c = c' \<and> r = r'"
proof
  from assms show "c = c'" unfolding in_cell_iff by (intro region_unique[of c TILE_SIZE x c']) simp_all
  from assms show "r = r'" unfolding in_cell_iff by (intro region_unique[of r TILE_SIZE y r']) simp_all
qed

lemma in_cell_cover:
  assumes "x < n * TILE_SIZE" and "y < m * TILE_SIZE"
  shows "x div TILE_SIZE < n \<and> y div TILE_SIZE < m \<and> in_cell (x div TILE_SIZE) (y div TILE_SIZE) x y"
proof -
  have dx: "x div TILE_SIZE < n" using assms(1) by (rule less_mult_imp_div_less)
  have dy: "y div TILE_SIZE < m" using assms(2) by (rule less_mult_imp_div_less)
  have lo: "a div TILE_SIZE * TILE_SIZE \<le> a" for a by simp
  have hi: "a < a div TILE_SIZE * TILE_SIZE + TILE_SIZE" for a
  proof -
    have "a = a div TILE_SIZE * TILE_SIZE + a mod TILE_SIZE" by simp
    moreover have "a mod TILE_SIZE < TILE_SIZE" using TILE_SIZE_pos by simp
    ultimately show ?thesis by linarith
  qed
  from dx dy lo hi show ?thesis by (simp add: in_cell_def)
qed

lemma in_cell_bound:
  assumes "in_cell c r x y" and "c < n" and "r < m"
  shows "x < n * TILE_SIZE \<and> y < m * TILE_SIZE"
proof -
  have "Suc c * TILE_SIZE \<le> n * TILE_SIZE" using assms(2) by (intro mult_le_mono1) simp
  moreover have "Suc r * TILE_SIZE \<le> m * TILE_SIZE" using assms(3) by (intro mult_le_mono1) simp
  ultimately show ?thesis using assms(1) unfolding in_cell_iff by linarith
qed

lemma canvas_original:
  "width (output_image init_original) = GRID_SIZE * TILE_SIZE"
  "height (output_image init_original) = GRID_SIZE * TILE_SIZE"
  by (simp_all add: init_original_def Image_new_def OUTPUT_SIZE_def)

lemma canvas_v1:
  "width (output_image (init_v1 p)) = GRID_COLS * TILE_SIZE"
  "height (output_image (init_v1 p)) = GRID_ROWS * TILE_SIZE"
  by (simp_all add: init_v1_def Image_new_def ASSEMBLED_SIZE_def GRID_ROWS_def GRID_COLS_def)

subsection \<open>What a step pastes\<close>

lemma cell_original_paste:
  assumes "load_tile_original L d c r st = Inr (tile, st1)"
  shows "\<exists>st'. cell_original L d c r st = Inr st'
     \<and> output_image st' = paste (output_image st) tile (c * TILE_SIZE, r * TILE_SIZE)"
proof -
  from load_tile_original_Inr(2)[OF assms] have "output_image st1 = output_image st" .
  with assms show ?thesis by (simp add: cell_original_def Let_def)
qed


lemma white_tile_simps:
  "im_size white_tile = (TILE_SIZE, TILE_SIZE)" "px white_tile x y = white"
  by (simp_all add: white_tile_def Image_new_def im_size_def)

lemma one_tile_world_simps:
  "tile_dir one_tile_world =
     Directory [(''75880.jpg'', Decodable white_tile), (''2-2.png'', Decodable white_tile)]"
  "output_writable one_tile_world" "output_file one_tile_world = None"
  by (simp_all add: one_tile_world_def)

lemma one_tile_world_decodes: "path_lookup (tile_dir one_tile_world) name \<noteq> Some Undecodable"
  by (simp add: one_tile_world_simps path_lookup_def)

lemma str_more_examples:
  "str 2 = ''2''" "str (Suc (Suc 0)) = ''2''" "str 3 = ''3''" "str 75880 = ''75880''"
  by (simp_all add: str.simps digit_char_def)


lemma white_state_original_simps:
  "px (output_image (white_state_original n)) x y = white"
  "tile_num (white_state_original n) = n"
  "width (output_image (white_state_original n)) = GRID_SIZE * TILE_SIZE"
  "height (output_image (white_state_original n)) = GRID_SIZE * TILE_SIZE"
  by (simp_all add: white_state_original_def Image_new_def OUTPUT_SIZE_def)





text \<open>
  C3. Take a cell of the grid of \<^verbatim>\<open>assemble-original-map.py\<close> whose tile number is in
  \<open>MISSING_TILES\<close>. Whatever the tile directory is, the step of the cell loads
  \<open>create_blank_tile\<close> with the same state (the result does not mention the directory)
  and pastes that tile into the canvas at the offsets \<open>(c * TILE_SIZE, r * TILE_SIZE)\<close>,
  whatever the canvas held. When the traversal has ended every pixel of the cell's
  region is black. And a directory that differs from another one only under the names
  of the tiles of \<open>MISSING_TILES\<close> gives the same traversal: the same canvas, the same
  counters, the same printed lines, or the same exception.
\<close>

theorem known_missing_tile_is_never_read:
  assumes "c < GRID_SIZE" and "r < GRID_SIZE"
    and "START_TILE + c * GRID_SIZE + r \<in> set MISSING_TILES"
    and "in_cell c r x y"
    and "traverse_original L d = Inr st'"
    and "\<And>name. name \<notin> (\<lambda>m. str m @ ''.jpg'') ` set MISSING_TILES \<Longrightarrow>
        path_lookup d' name = path_lookup d name"
  shows "(\<forall>st e. tile_num st = START_TILE + c * GRID_SIZE + r \<longrightarrow>
            load_tile_original L e c r st =
              Inr (create_blank_tile,
                   st\<lparr>stdout := stdout st @
                         [Msg ''  Missing tile {tile_num} at column {col+1}, row {row+1} - using black placeholder''
                            [N (tile_num st), N (c + 1), N (r + 1)]],
                      tiles_missing := tiles_missing st + 1\<rparr>)
            \<and> (\<exists>s'. cell_original L e c r st = Inr s'
                 \<and> output_image s' =
                     paste (output_image st) create_blank_tile (c * TILE_SIZE, r * TILE_SIZE)))
       \<and> im_size create_blank_tile = (TILE_SIZE, TILE_SIZE)
       \<and> (\<forall>i j. px create_blank_tile i j = black)
       \<and> px (output_image st') x y = black
       \<and> traverse_original L d' = traverse_original L d"
proof (intro conjI allI impI)
  fix st :: state_original and e
  assume "tile_num st = START_TILE + c * GRID_SIZE + r"
  with assms(3) have "tile_num st \<in> set MISSING_TILES" by simp
  then show l: "load_tile_original L e c r st =
              Inr (create_blank_tile,
                   st\<lparr>stdout := stdout st @
                         [Msg ''  Missing tile {tile_num} at column {col+1}, row {row+1} - using black placeholder''
                            [N (tile_num st), N (c + 1), N (r + 1)]],
                      tiles_missing := tiles_missing st + 1\<rparr>)"
    by (rule load_tile_original_missing)
  show "\<exists>s'. cell_original L e c r st = Inr s'
                 \<and> output_image s' =
                     paste (output_image st) create_blank_tile (c * TILE_SIZE, r * TILE_SIZE)"
    by (rule cell_original_paste[OF l])
next
  show "im_size create_blank_tile = (TILE_SIZE, TILE_SIZE)" by (rule create_blank_tile_simps)
next
  fix i j show "px create_blank_tile i j = black" by (rule create_blank_tile_simps)
next
  show "px (output_image st') x y = black"
    using traverse_original_pixel[OF assms(5,1,2,4)] assms(3) by simp
next
  show "traverse_original L d' = traverse_original L d"
  proof (rule traverse_original_cong)
    fix c' r'
    let ?n = "START_TILE + c' * GRID_SIZE + r'"
    show "?n \<in> set MISSING_TILES
      \<or> path_lookup d' (str ?n @ ''.jpg'') = path_lookup d (str ?n @ ''.jpg'')"
    proof (cases "?n \<in> set MISSING_TILES")
      case True
      then show ?thesis by simp
    next
      case False
      have "str ?n @ ''.jpg'' \<notin> (\<lambda>m. str m @ ''.jpg'') ` set MISSING_TILES"
      proof
        assume "str ?n @ ''.jpg'' \<in> (\<lambda>m. str m @ ''.jpg'') ` set MISSING_TILES"
        then obtain m where m: "m \<in> set MISSING_TILES" and "str ?n @ ''.jpg'' = str m @ ''.jpg''"
          by blast
        then have "str ?n = str m" by simp
        then have "?n = m" by (rule str_inj)
        with m False show False by simp
      qed
      then show ?thesis using assms(6) by blast
    qed
  qed
qed

theorem known_missing_tile_is_never_read_witness:
  "START_TILE + 7 * GRID_SIZE + 4 \<in> set MISSING_TILES
   \<and> path_lookup shadowed_dir (str (START_TILE + 7 * GRID_SIZE + 4) @ ''.jpg'') = Some Undecodable
   \<and> in_cell 7 4 7168 4096
   \<and> traverse_original nearest shadowed_dir = traverse_original nearest (Directory [])
   \<and> (\<exists>st. traverse_original nearest shadowed_dir = Inr st \<and> px (output_image st) 7168 4096 = black)
   \<and> px (output_image (white_state_original 76009)) 7168 4096 = white
   \<and> (\<exists>s'. cell_original nearest shadowed_dir 7 4 (white_state_original 76009) = Inr s'
         \<and> px (output_image s') 7168 4096 = black)"
proof -
  have g: "(7::nat) < GRID_SIZE" "(4::nat) < GRID_SIZE" by (simp_all add: GRID_SIZE_def)
  have n: "START_TILE + 7 * GRID_SIZE + 4 = 76009"
    by (simp add: START_TILE_def GRID_SIZE_def)
  have m: "START_TILE + 7 * GRID_SIZE + 4 \<in> set MISSING_TILES"
    unfolding n by (simp add: MISSING_TILES_def)
  have l: "path_lookup shadowed_dir (str (START_TILE + 7 * GRID_SIZE + 4) @ ''.jpg'') = Some Undecodable"
    unfolding n by (simp add: shadowed_dir_def path_lookup_def str_examples)
  have i: "in_cell 7 4 7168 4096" by (simp add: in_cell_def TILE_SIZE_def)
  obtain st where t: "traverse_original nearest (Directory []) = Inr st"
    using traverse_original_empty[of nearest] ..
  have a: "\<And>name. name \<notin> (\<lambda>m. str m @ ''.jpg'') ` set MISSING_TILES \<Longrightarrow>
      path_lookup shadowed_dir name = path_lookup (Directory []) name"
  proof -
    fix name
    assume that: "name \<notin> (\<lambda>m. str m @ ''.jpg'') ` set MISSING_TILES"
    have "str 76009 @ ''.jpg'' \<in> (\<lambda>m. str m @ ''.jpg'') ` set MISSING_TILES"
      by (simp add: MISSING_TILES_def)
    with that have "name \<noteq> ''76009.jpg''" by (auto simp: str_examples)
    then show "path_lookup shadowed_dir name = path_lookup (Directory []) name"
      by (simp add: shadowed_dir_def path_lookup_def)
  qed
  note inst = known_missing_tile_is_never_read[OF g m i t a]
  from inst have b: "px (output_image st) 7168 4096 = black"
    and c: "traverse_original nearest shadowed_dir = traverse_original nearest (Directory [])"
    by simp_all
  have wn: "tile_num (white_state_original 76009) = START_TILE + 7 * GRID_SIZE + 4"
    unfolding n by (rule white_state_original_simps)
  have "\<exists>s'. cell_original nearest shadowed_dir 7 4 (white_state_original 76009) = Inr s'
      \<and> output_image s' =
        paste (output_image (white_state_original 76009)) create_blank_tile (7 * TILE_SIZE, 4 * TILE_SIZE)"
    using inst wn by blast
  then obtain s' where s: "cell_original nearest shadowed_dir 7 4 (white_state_original 76009) = Inr s'"
    and o: "output_image s' =
      paste (output_image (white_state_original 76009)) create_blank_tile (7 * TILE_SIZE, 4 * TILE_SIZE)"
    by blast
  have "px (output_image s') 7168 4096 = black"
    unfolding o
    by (simp add: px_paste create_blank_tile_def Image_new_def white_state_original_simps
        TILE_SIZE_def GRID_SIZE_def)
  with s have d: "\<exists>s'. cell_original nearest shadowed_dir 7 4 (white_state_original 76009) = Inr s'
         \<and> px (output_image s') 7168 4096 = black" by blast
  from t b c d m l i white_state_original_simps(1)[of 76009 7168 4096] show ?thesis by simp
qed

text \<open>
  C4. Let the loops of \<^verbatim>\<open>assemble-original-map.py\<close> have run through the columns before
  \<open>c\<close> and, in column \<open>c\<close>, through the rows before \<open>r\<close>, without an exception, and let
  \<open>st\<close> be the state they have reached. Then \<open>st\<close> is the state in which the traversal
  enters the cell \<open>(c, r)\<close>: the whole traversal is the body of that cell run from \<open>st\<close>,
  followed by the rest of the column and the remaining columns. In \<open>st\<close> the counter
  \<open>tile_num\<close> is \<open>START_TILE + c * GRID_SIZE + r\<close>. What the body loads is decided by the
  file under the name made of that number and \<^verbatim>\<open>.jpg\<close>, and by nothing else in the
  directory: for a tile of \<open>MISSING_TILES\<close> the placeholder without a look at the
  directory; otherwise the placeholder when no file has that name, with the path printed
  in the warning; the exception of \<^verbatim>\<open>Image.open\<close>, which carries that name, when the file
  does not decode; and the image of that file, resized when its size is not
  \<open>(TILE_SIZE, TILE_SIZE)\<close>, when it decodes.
\<close>

theorem tile_number_of_cell:
  assumes "c < GRID_SIZE" and "r < GRID_SIZE"
    and "for_loop [0..<c] (\<lambda>col. for_loop [0..<GRID_SIZE] (\<lambda>row. cell_original L d col row))
           init_original = Inr st1"
    and "for_loop [0..<r] (\<lambda>row. cell_original L d c row) st1 = Inr st"
  shows "tile_num st = START_TILE + c * GRID_SIZE + r
       \<and> traverse_original L d =
           (case cell_original L d c r st of
              Inl e \<Rightarrow> Inl e
            | Inr s \<Rightarrow>
                (case for_loop [Suc r..<GRID_SIZE] (\<lambda>row. cell_original L d c row) s of
                   Inl e \<Rightarrow> Inl e
                 | Inr s' \<Rightarrow>
                     for_loop [Suc c..<GRID_SIZE]
                       (\<lambda>col. for_loop [0..<GRID_SIZE] (\<lambda>row. cell_original L d col row)) s'))
       \<and> load_tile_original L d c r st =
           (if START_TILE + c * GRID_SIZE + r \<in> set MISSING_TILES then
              Inr (create_blank_tile,
                   st\<lparr>stdout := stdout st @
                         [Msg ''  Missing tile {tile_num} at column {col+1}, row {row+1} - using black placeholder''
                            [N (START_TILE + c * GRID_SIZE + r), N (c + 1), N (r + 1)]],
                      tiles_missing := tiles_missing st + 1\<rparr>)
            else
              (case path_lookup d (str (START_TILE + c * GRID_SIZE + r) @ ''.jpg'') of
                 None \<Rightarrow>
                   Inr (create_blank_tile,
                        st\<lparr>stdout := stdout st @
                              [Msg ''  Warning: tile {tile_num} not found at {tile_path} - using black placeholder''
                                 [N (START_TILE + c * GRID_SIZE + r),
                                  S (TILE_DIR_original @ ''/'' @ str (START_TILE + c * GRID_SIZE + r) @ ''.jpg'')]],
                           tiles_missing := tiles_missing st + 1\<rparr>)
               | Some Undecodable \<Rightarrow>
                   Inl (UnidentifiedImageError (str (START_TILE + c * GRID_SIZE + r) @ ''.jpg''))
               | Some (Decodable im) \<Rightarrow>
                   if im_size im \<noteq> (TILE_SIZE, TILE_SIZE) then
                     Inr (resize L im (TILE_SIZE, TILE_SIZE),
                          st\<lparr>stdout := stdout st @
                                [Msg ''  Warning: tile {tile_num} has unexpected size {tile.size}, resizing...''
                                   [N (START_TILE + c * GRID_SIZE + r), Size (im_size im)]],
                             tiles_processed := tiles_processed st + 1\<rparr>)
                   else Inr (im, st\<lparr>tiles_processed := tiles_processed st + 1\<rparr>)))
       \<and> (\<forall>d'. path_lookup d' (str (START_TILE + c * GRID_SIZE + r) @ ''.jpg'')
                 = path_lookup d (str (START_TILE + c * GRID_SIZE + r) @ ''.jpg'')
              \<longrightarrow> cell_original L d' c r st = cell_original L d c r st)"
proof (intro conjI allI impI)
  have "for_loop (List.product [0..<c] [0..<GRID_SIZE]) (\<lambda>(c, r). cell_original L d c r)
      init_original = Inr st1"
    using assms(3) by (simp add: for_loop_product)
  from loop_original_tile_num[OF this] have "tile_num st1 = START_TILE + c * GRID_SIZE"
    by (simp add: init_original_simps)
  with rows_loop_original_tile_num[OF assms(4)]
  show num: "tile_num st = START_TILE + c * GRID_SIZE + r" by simp
  show "traverse_original L d =
           (case cell_original L d c r st of
              Inl e \<Rightarrow> Inl e
            | Inr s \<Rightarrow>
                (case for_loop [Suc r..<GRID_SIZE] (\<lambda>row. cell_original L d c row) s of
                   Inl e \<Rightarrow> Inl e
                 | Inr s' \<Rightarrow>
                     for_loop [Suc c..<GRID_SIZE]
                       (\<lambda>col. for_loop [0..<GRID_SIZE] (\<lambda>row. cell_original L d col row)) s'))"
  proof -
    let ?F = "\<lambda>col. for_loop [0..<GRID_SIZE] (\<lambda>row. cell_original L d col row)"
    have "traverse_original L d = for_loop ([0..<c] @ c # [Suc c..<GRID_SIZE]) ?F init_original"
      unfolding traverse_original_def using upt_split_at[OF assms(1)] by simp
    also have "\<dots> = (case ?F c st1 of Inl e \<Rightarrow> Inl e
         | Inr s' \<Rightarrow> for_loop [Suc c..<GRID_SIZE] ?F s')"
      unfolding for_loop_append using assms(3) by simp
    also have "?F c st1 = for_loop ([0..<r] @ r # [Suc r..<GRID_SIZE]) (\<lambda>row. cell_original L d c row) st1"
      using upt_split_at[OF assms(2)] by simp
    also have "\<dots> = (case cell_original L d c r st of Inl e \<Rightarrow> Inl e
         | Inr s \<Rightarrow> for_loop [Suc r..<GRID_SIZE] (\<lambda>row. cell_original L d c row) s)"
      unfolding for_loop_append using assms(4) by simp
    finally show ?thesis by (simp split: sum.splits)
  qed
  show "load_tile_original L d c r st =
           (if START_TILE + c * GRID_SIZE + r \<in> set MISSING_TILES then
              Inr (create_blank_tile,
                   st\<lparr>stdout := stdout st @
                         [Msg ''  Missing tile {tile_num} at column {col+1}, row {row+1} - using black placeholder''
                            [N (START_TILE + c * GRID_SIZE + r), N (c + 1), N (r + 1)]],
                      tiles_missing := tiles_missing st + 1\<rparr>)
            else
              (case path_lookup d (str (START_TILE + c * GRID_SIZE + r) @ ''.jpg'') of
                 None \<Rightarrow>
                   Inr (create_blank_tile,
                        st\<lparr>stdout := stdout st @
                              [Msg ''  Warning: tile {tile_num} not found at {tile_path} - using black placeholder''
                                 [N (START_TILE + c * GRID_SIZE + r),
                                  S (TILE_DIR_original @ ''/'' @ str (START_TILE + c * GRID_SIZE + r) @ ''.jpg'')]],
                           tiles_missing := tiles_missing st + 1\<rparr>)
               | Some Undecodable \<Rightarrow>
                   Inl (UnidentifiedImageError (str (START_TILE + c * GRID_SIZE + r) @ ''.jpg''))
               | Some (Decodable im) \<Rightarrow>
                   if im_size im \<noteq> (TILE_SIZE, TILE_SIZE) then
                     Inr (resize L im (TILE_SIZE, TILE_SIZE),
                          st\<lparr>stdout := stdout st @
                                [Msg ''  Warning: tile {tile_num} has unexpected size {tile.size}, resizing...''
                                   [N (START_TILE + c * GRID_SIZE + r), Size (im_size im)]],
                             tiles_processed := tiles_processed st + 1\<rparr>)
                   else Inr (im, st\<lparr>tiles_processed := tiles_processed st + 1\<rparr>)))"
    unfolding num[symmetric]
  proof (cases "tile_num st \<in> set MISSING_TILES")
    case True
    then show "load_tile_original L d c r st =
           (if tile_num st \<in> set MISSING_TILES then
              Inr (create_blank_tile,
                   st\<lparr>stdout := stdout st @
                         [Msg ''  Missing tile {tile_num} at column {col+1}, row {row+1} - using black placeholder''
                            [N (tile_num st), N (c + 1), N (r + 1)]],
                      tiles_missing := tiles_missing st + 1\<rparr>)
            else
              (case path_lookup d (str (tile_num st) @ ''.jpg'') of
                 None \<Rightarrow>
                   Inr (create_blank_tile,
                        st\<lparr>stdout := stdout st @
                              [Msg ''  Warning: tile {tile_num} not found at {tile_path} - using black placeholder''
                                 [N (tile_num st),
                                  S (TILE_DIR_original @ ''/'' @ str (tile_num st) @ ''.jpg'')]],
                           tiles_missing := tiles_missing st + 1\<rparr>)
               | Some Undecodable \<Rightarrow>
                   Inl (UnidentifiedImageError (str (tile_num st) @ ''.jpg''))
               | Some (Decodable im) \<Rightarrow>
                   if im_size im \<noteq> (TILE_SIZE, TILE_SIZE) then
                     Inr (resize L im (TILE_SIZE, TILE_SIZE),
                          st\<lparr>stdout := stdout st @
                                [Msg ''  Warning: tile {tile_num} has unexpected size {tile.size}, resizing...''
                                   [N (tile_num st), Size (im_size im)]],
                             tiles_processed := tiles_processed st + 1\<rparr>)
                   else Inr (im, st\<lparr>tiles_processed := tiles_processed st + 1\<rparr>)))"
      by (simp add: load_tile_original_missing)
  next
    case False
    show "load_tile_original L d c r st =
           (if tile_num st \<in> set MISSING_TILES then
              Inr (create_blank_tile,
                   st\<lparr>stdout := stdout st @
                         [Msg ''  Missing tile {tile_num} at column {col+1}, row {row+1} - using black placeholder''
                            [N (tile_num st), N (c + 1), N (r + 1)]],
                      tiles_missing := tiles_missing st + 1\<rparr>)
            else
              (case path_lookup d (str (tile_num st) @ ''.jpg'') of
                 None \<Rightarrow>
                   Inr (create_blank_tile,
                        st\<lparr>stdout := stdout st @
                              [Msg ''  Warning: tile {tile_num} not found at {tile_path} - using black placeholder''
                                 [N (tile_num st),
                                  S (TILE_DIR_original @ ''/'' @ str (tile_num st) @ ''.jpg'')]],
                           tiles_missing := tiles_missing st + 1\<rparr>)
               | Some Undecodable \<Rightarrow>
                   Inl (UnidentifiedImageError (str (tile_num st) @ ''.jpg''))
               | Some (Decodable im) \<Rightarrow>
                   if im_size im \<noteq> (TILE_SIZE, TILE_SIZE) then
                     Inr (resize L im (TILE_SIZE, TILE_SIZE),
                          st\<lparr>stdout := stdout st @
                                [Msg ''  Warning: tile {tile_num} has unexpected size {tile.size}, resizing...''
                                   [N (tile_num st), Size (im_size im)]],
                             tiles_processed := tiles_processed st + 1\<rparr>)
                   else Inr (im, st\<lparr>tiles_processed := tiles_processed st + 1\<rparr>)))"
    proof (cases "path_lookup d (str (tile_num st) @ ''.jpg'')")
      case None
      with False load_tile_original_absent[OF False None, of L c r] show ?thesis by simp
    next
      case (Some f)
      show ?thesis
      proof (cases f)
        case Undecodable
        with Some have u: "path_lookup d (str (tile_num st) @ ''.jpg'') = Some Undecodable" by simp
        with False load_tile_original_undecodable[OF False u, of L c r] show ?thesis by simp
      next
        case (Decodable im)
        with Some have l: "path_lookup d (str (tile_num st) @ ''.jpg'') = Some (Decodable im)" by simp
        show ?thesis
        proof (cases "im_size im = (TILE_SIZE, TILE_SIZE)")
          case True
          with False l load_tile_original_fitting[OF False l True, of L c r] show ?thesis by simp
        next
          case ne: False
          with False l load_tile_original_resized[OF False l ne, of L c r] show ?thesis by simp
        qed
      qed
    qed
  qed
  fix d'
  assume "path_lookup d' (str (START_TILE + c * GRID_SIZE + r) @ ''.jpg'')
                 = path_lookup d (str (START_TILE + c * GRID_SIZE + r) @ ''.jpg'')"
  with num show "cell_original L d' c r st = cell_original L d c r st"
    by (intro cell_original_cong) simp
qed

theorem tile_number_of_cell_witness:
  "path_lookup (tile_dir one_tile_world) ''75880.jpg'' = Some (Decodable white_tile)
   \<and> (\<exists>st. for_loop [0..<1] (\<lambda>row. cell_original nearest (tile_dir one_tile_world) 0 row)
              init_original = Inr st
         \<and> tile_num st = START_TILE + 0 * GRID_SIZE + 1
         \<and> tile_num st = 75880
         \<and> load_tile_original nearest (tile_dir one_tile_world) 0 1 st
              = Inr (white_tile, st\<lparr>tiles_processed := tiles_processed st + 1\<rparr>))"
proof -
  let ?d = "tile_dir one_tile_world"
  have g: "(0::nat) < GRID_SIZE" "(1::nat) < GRID_SIZE" by (simp_all add: GRID_SIZE_def)
  have a: "for_loop [0..<0]
      (\<lambda>col. for_loop [0..<GRID_SIZE] (\<lambda>row. cell_original nearest ?d col row))
      init_original = Inr init_original"
    by simp
  obtain st where "cell_original nearest ?d 0 0 init_original = Inr st"
    using cell_original_completes[of init_original ?d nearest 0 0] one_tile_world_decodes
    by blast
  then have b: "for_loop [0..<1] (\<lambda>row. cell_original nearest ?d 0 row) init_original = Inr st"
    by simp
  have n: "START_TILE + 0 * GRID_SIZE + 1 = 75880" by (simp add: START_TILE_def)
  have l: "path_lookup ?d (str 75880 @ ''.jpg'') = Some (Decodable white_tile)"
    "path_lookup ?d ''75880.jpg'' = Some (Decodable white_tile)"
    by (simp_all add: one_tile_world_simps path_lookup_def str_more_examples)
  have m: "75880 \<notin> set MISSING_TILES" by (simp add: MISSING_TILES_def)
  note inst = tile_number_of_cell[OF g a b, unfolded n]
  from inst have num: "tile_num st = 75880" by (rule conjunct1)
  from inst[THEN conjunct2, THEN conjunct2, THEN conjunct1]
  have "load_tile_original nearest ?d 0 1 st
      = Inr (white_tile, st\<lparr>tiles_processed := tiles_processed st + 1\<rparr>)"
    unfolding l by (simp add: m white_tile_simps)
  with b num n l(2) show ?thesis by simp
qed

lemma px_paste_tile:
  assumes "im_size tile = (TILE_SIZE, TILE_SIZE)"
  shows "px (paste im tile (c * TILE_SIZE, r * TILE_SIZE)) x y =
     (if in_cell c r x y \<and> x < width im \<and> y < height im
      then px tile (x - c * TILE_SIZE) (y - r * TILE_SIZE) else px im x y)"
proof -
  from assms have "width tile = TILE_SIZE" "height tile = TILE_SIZE" by (simp_all add: im_size_def)
  then show ?thesis by (simp add: px_paste in_cell_def)
qed

lemma cell_original_Inr_paste:
  assumes "cell_original L d c r st = Inr st'"
  shows "\<exists>tile st1. load_tile_original L d c r st = Inr (tile, st1)
     \<and> im_size tile = (TILE_SIZE, TILE_SIZE)
     \<and> output_image st' = paste (output_image st) tile (c * TILE_SIZE, r * TILE_SIZE)"
proof -
  from assms obtain tile st1 where l: "load_tile_original L d c r st = Inr (tile, st1)"
    and o: "output_image st' = paste (output_image st) tile (c * TILE_SIZE, r * TILE_SIZE)"
    and "tile_num st' = tile_num st + 1"
    by (rule cell_original_Inr)
  from load_tile_original_Inr(1)[OF l] l o show ?thesis by blast
qed

lemma cell_v1_Inr_paste:
  assumes "cell_v1 L d row col st = Inr st'"
  shows "(path_lookup d (str row @ ''-'' @ str col @ ''.png'') = None
          \<and> output_image st' = output_image st)
       \<or> (\<exists>im. path_lookup d (str row @ ''-'' @ str col @ ''.png'') = Some (Decodable im)
          \<and> output_image st' =
              paste (output_image st)
                (if im_size im \<noteq> (TILE_SIZE, TILE_SIZE) then resize L im (TILE_SIZE, TILE_SIZE) else im)
                ((col - 1) * TILE_SIZE, (row - 1) * TILE_SIZE))"
  using assms by (cases rule: cell_v1_Inr) blast+

text \<open>
  C6. The nested loops of either script run the body of the cell once for every element
  of one list of cells, in the order of the list, and that list has no repetition and
  holds exactly the cells of the grid (columns and rows \<open>0..GRID_SIZE - 1\<close>; rows
  \<open>1..GRID_ROWS\<close> and columns \<open>1..GRID_COLS\<close>). The body of a cell of
  \<^verbatim>\<open>assemble-original-map.py\<close> pastes the tile it has loaded, of size \<open>TILE_SIZE\<close> x
  \<open>TILE_SIZE\<close>, at the offsets \<open>(col * TILE_SIZE, row * TILE_SIZE)\<close>; the body of a cell of
  \<^verbatim>\<open>assemble-v1-map.py\<close> pastes the tile of its file, fitted to that size, at
  \<open>((col - 1) * TILE_SIZE, (row - 1) * TILE_SIZE)\<close>, and pastes nothing when the file is
  missing. A paste of such a tile at the offsets \<open>(c * TILE_SIZE, r * TILE_SIZE)\<close> sets the
  pixels of the canvas in the region \<open>in_cell c r\<close> to those of the tile and leaves every
  other pixel as it was. The regions of two cells that share a pixel are the same cell,
  and a pixel lies on the canvas exactly when it lies in the region of a cell of the
  grid.
\<close>

theorem traversal_tiles_the_canvas:
  "traverse_original L d =
     for_loop (List.product [0..<GRID_SIZE] [0..<GRID_SIZE]) (\<lambda>(col, row). cell_original L d col row)
       init_original
   \<and> distinct (List.product [0..<GRID_SIZE] [0..<GRID_SIZE])
   \<and> set (List.product [0..<GRID_SIZE] [0..<GRID_SIZE]) = {0..<GRID_SIZE} \<times> {0..<GRID_SIZE}
   \<and> (\<forall>col row st st'. cell_original L d col row st = Inr st' \<longrightarrow>
        (\<exists>tile st1. load_tile_original L d col row st = Inr (tile, st1)
           \<and> im_size tile = (TILE_SIZE, TILE_SIZE)
           \<and> output_image st' = paste (output_image st) tile (col * TILE_SIZE, row * TILE_SIZE)))
   \<and> (\<forall>col row st st' x y. cell_original L d col row st = Inr st' \<longrightarrow> \<not> in_cell col row x y \<longrightarrow>
        px (output_image st') x y = px (output_image st) x y)
   \<and> (\<forall>x y. (x < width (output_image init_original) \<and> y < height (output_image init_original))
        \<longleftrightarrow> (\<exists>col row. col < GRID_SIZE \<and> row < GRID_SIZE \<and> in_cell col row x y))
   \<and> traverse_v1 L p d1 =
       for_loop (List.product [1..<GRID_ROWS + 1] [1..<GRID_COLS + 1]) (\<lambda>(row, col). cell_v1 L d1 row col)
         (init_v1 p)
   \<and> distinct (List.product [1..<GRID_ROWS + 1] [1..<GRID_COLS + 1])
   \<and> set (List.product [1..<GRID_ROWS + 1] [1..<GRID_COLS + 1]) = {1..GRID_ROWS} \<times> {1..GRID_COLS}
   \<and> (\<forall>row col st st'. cell_v1 L d1 row col st = Inr st' \<longrightarrow>
        (path_lookup d1 (str row @ ''-'' @ str col @ ''.png'') = None
           \<and> output_image st' = output_image st)
        \<or> (\<exists>im. path_lookup d1 (str row @ ''-'' @ str col @ ''.png'') = Some (Decodable im)
           \<and> output_image st' =
               paste (output_image st)
                 (if im_size im \<noteq> (TILE_SIZE, TILE_SIZE) then resize L im (TILE_SIZE, TILE_SIZE) else im)
                 ((col - 1) * TILE_SIZE, (row - 1) * TILE_SIZE)))
   \<and> (\<forall>row col st st' x y. cell_v1 L d1 row col st = Inr st' \<longrightarrow> \<not> in_cell (col - 1) (row - 1) x y \<longrightarrow>
        px (output_image st') x y = px (output_image st) x y)
   \<and> (\<forall>x y. (x < width (output_image (init_v1 p)) \<and> y < height (output_image (init_v1 p)))
        \<longleftrightarrow> (\<exists>row col. 1 \<le> row \<and> row \<le> GRID_ROWS \<and> 1 \<le> col \<and> col \<le> GRID_COLS
              \<and> in_cell (col - 1) (row - 1) x y))
   \<and> (\<forall>im tile c r x y. im_size tile = (TILE_SIZE, TILE_SIZE) \<longrightarrow>
        px (paste im tile (c * TILE_SIZE, r * TILE_SIZE)) x y =
          (if in_cell c r x y \<and> x < width im \<and> y < height im
           then px tile (x - c * TILE_SIZE) (y - r * TILE_SIZE) else px im x y))
   \<and> (\<forall>c r c' r' x y. in_cell c r x y \<longrightarrow> in_cell c' r' x y \<longrightarrow> c = c' \<and> r = r')"
proof (intro conjI allI impI)
  show "traverse_original L d =
     for_loop (List.product [0..<GRID_SIZE] [0..<GRID_SIZE]) (\<lambda>(col, row). cell_original L d col row)
       init_original"
    by (rule traverse_original_flat)
  show "traverse_v1 L p d1 =
       for_loop (List.product [1..<GRID_ROWS + 1] [1..<GRID_COLS + 1]) (\<lambda>(row, col). cell_v1 L d1 row col)
         (init_v1 p)"
    by (rule traverse_v1_flat)
  show "distinct (List.product [0..<GRID_SIZE] [0..<GRID_SIZE])"
    by (intro distinct_product distinct_upt)
  show "distinct (List.product [1..<GRID_ROWS + 1] [1..<GRID_COLS + 1])"
    by (intro distinct_product distinct_upt)
  show "set (List.product [0..<GRID_SIZE] [0..<GRID_SIZE]) = {0..<GRID_SIZE} \<times> {0..<GRID_SIZE}"
    unfolding set_product set_upt ..
  show "set (List.product [1..<GRID_ROWS + 1] [1..<GRID_COLS + 1]) = {1..GRID_ROWS} \<times> {1..GRID_COLS}"
    unfolding set_product set_upt by auto
next
  fix col row st st'
  assume "cell_original L d col row st = Inr st'"
  then show "\<exists>tile st1. load_tile_original L d col row st = Inr (tile, st1)
           \<and> im_size tile = (TILE_SIZE, TILE_SIZE)
           \<and> output_image st' = paste (output_image st) tile (col * TILE_SIZE, row * TILE_SIZE)"
    by (rule cell_original_Inr_paste)
next
  fix row col st st'
  assume "cell_v1 L d1 row col st = Inr st'"
  then show "(path_lookup d1 (str row @ ''-'' @ str col @ ''.png'') = None
           \<and> output_image st' = output_image st)
        \<or> (\<exists>im. path_lookup d1 (str row @ ''-'' @ str col @ ''.png'') = Some (Decodable im)
           \<and> output_image st' =
               paste (output_image st)
                 (if im_size im \<noteq> (TILE_SIZE, TILE_SIZE) then resize L im (TILE_SIZE, TILE_SIZE) else im)
                 ((col - 1) * TILE_SIZE, (row - 1) * TILE_SIZE))"
    by (rule cell_v1_Inr_paste)
next
  fix im tile c r x y
  assume "im_size tile = (TILE_SIZE, TILE_SIZE)"
  then show "px (paste im tile (c * TILE_SIZE, r * TILE_SIZE)) x y =
          (if in_cell c r x y \<and> x < width im \<and> y < height im
           then px tile (x - c * TILE_SIZE) (y - r * TILE_SIZE) else px im x y)"
    by (rule px_paste_tile)
next
  fix col row st st' x y
  assume "cell_original L d col row st = Inr st'" "\<not> in_cell col row x y"
  then show "px (output_image st') x y = px (output_image st) x y"
    unfolding in_cell_iff by (rule cell_original_px_outside)
next
  fix row col st st' x y
  assume "cell_v1 L d1 row col st = Inr st'" "\<not> in_cell (col - 1) (row - 1) x y"
  then show "px (output_image st') x y = px (output_image st) x y"
    unfolding in_cell_iff by (rule cell_v1_px_outside)
next
  fix x y
  show "(x < width (output_image init_original) \<and> y < height (output_image init_original))
        \<longleftrightarrow> (\<exists>col row. col < GRID_SIZE \<and> row < GRID_SIZE \<and> in_cell col row x y)"
    unfolding canvas_original
  proof
    assume "x < GRID_SIZE * TILE_SIZE \<and> y < GRID_SIZE * TILE_SIZE"
    with in_cell_cover[of x GRID_SIZE y GRID_SIZE]
    have c: "x div TILE_SIZE < GRID_SIZE" "y div TILE_SIZE < GRID_SIZE"
      "in_cell (x div TILE_SIZE) (y div TILE_SIZE) x y" by simp_all
    show "\<exists>col row. col < GRID_SIZE \<and> row < GRID_SIZE \<and> in_cell col row x y"
      using c by (intro exI[of _ "x div TILE_SIZE"] exI[of _ "y div TILE_SIZE"]) simp
  next
    assume "\<exists>col row. col < GRID_SIZE \<and> row < GRID_SIZE \<and> in_cell col row x y"
    then obtain col row where rc: "col < GRID_SIZE" "row < GRID_SIZE"
      and i: "in_cell col row x y" by blast
    from in_cell_bound[OF i rc] show "x < GRID_SIZE * TILE_SIZE \<and> y < GRID_SIZE * TILE_SIZE" .
  qed
next
  fix x y
  show "(x < width (output_image (init_v1 p)) \<and> y < height (output_image (init_v1 p)))
        \<longleftrightarrow> (\<exists>row col. 1 \<le> row \<and> row \<le> GRID_ROWS \<and> 1 \<le> col \<and> col \<le> GRID_COLS
              \<and> in_cell (col - 1) (row - 1) x y)"
    unfolding canvas_v1
  proof
    assume "x < GRID_COLS * TILE_SIZE \<and> y < GRID_ROWS * TILE_SIZE"
    with in_cell_cover[of x GRID_COLS y GRID_ROWS]
    have c: "x div TILE_SIZE < GRID_COLS" "y div TILE_SIZE < GRID_ROWS"
      "in_cell (x div TILE_SIZE) (y div TILE_SIZE) x y" by simp_all
    show "\<exists>row col. 1 \<le> row \<and> row \<le> GRID_ROWS \<and> 1 \<le> col \<and> col \<le> GRID_COLS
              \<and> in_cell (col - 1) (row - 1) x y"
      using c by (intro exI[of _ "Suc (y div TILE_SIZE)"] exI[of _ "Suc (x div TILE_SIZE)"]) simp
  next
    assume "\<exists>row col. 1 \<le> row \<and> row \<le> GRID_ROWS \<and> 1 \<le> col \<and> col \<le> GRID_COLS
              \<and> in_cell (col - 1) (row - 1) x y"
    then obtain row col where rc: "1 \<le> row" "row \<le> GRID_ROWS" "1 \<le> col" "col \<le> GRID_COLS"
      and i: "in_cell (col - 1) (row - 1) x y" by blast
    from rc have "col - 1 < GRID_COLS" "row - 1 < GRID_ROWS" by simp_all
    from in_cell_bound[OF i this] show "x < GRID_COLS * TILE_SIZE \<and> y < GRID_ROWS * TILE_SIZE" .
  qed
next
  fix c r c' r' x y
  assume "in_cell c r x y" "in_cell c' r' x y"
  then have "c = c' \<and> r = r'" by (rule in_cell_unique)
  then show "c = c'" "r = r'" by simp_all
qed


theorem traversal_tiles_the_canvas_witness:
  "(1500 < width (output_image init_original) \<and> 20 < height (output_image init_original))
   \<and> in_cell 1 0 1500 20
   \<and> (\<exists>col row. col < GRID_SIZE \<and> row < GRID_SIZE \<and> in_cell col row 1500 20)
   \<and> (\<exists>row col. 1 \<le> row \<and> row \<le> GRID_ROWS \<and> 1 \<le> col \<and> col \<le> GRID_COLS
         \<and> in_cell (col - 1) (row - 1) 1500 20)
   \<and> \<not> in_cell 0 0 1500 20
   \<and> px (output_image (init_original\<lparr>tile_num := 75880\<rparr>)) 20 1500 = black
   \<and> (\<exists>st'. cell_original nearest (tile_dir one_tile_world) 0 1 (init_original\<lparr>tile_num := 75880\<rparr>)
              = Inr st'
         \<and> px (output_image st') 20 1500 = white)
   \<and> px (output_image (init_v1 example_paths)) 1500 1500 = black
   \<and> (\<exists>st'. cell_v1 nearest (tile_dir one_tile_world) 2 2 (init_v1 example_paths) = Inr st'
         \<and> px (output_image st') 1500 1500 = white)"
proof -
  let ?d = "tile_dir one_tile_world"
  let ?s0 = "init_original\<lparr>tile_num := 75880\<rparr>"
  note inst = traversal_tiles_the_canvas[of nearest ?d example_paths ?d]
  note pasted = inst[THEN conjunct2, THEN conjunct2, THEN conjunct2, THEN conjunct1, rule_format]
  note cover = inst[THEN conjunct2, THEN conjunct2, THEN conjunct2, THEN conjunct2, THEN conjunct2,
      THEN conjunct1, rule_format, of 1500 20]
  note pasted1 = inst[THEN conjunct2, THEN conjunct2, THEN conjunct2, THEN conjunct2, THEN conjunct2,
      THEN conjunct2, THEN conjunct2, THEN conjunct2, THEN conjunct2, THEN conjunct1, rule_format]
  note cover1 = inst[THEN conjunct2, THEN conjunct2, THEN conjunct2, THEN conjunct2, THEN conjunct2,
      THEN conjunct2, THEN conjunct2, THEN conjunct2, THEN conjunct2, THEN conjunct2, THEN conjunct2,
      THEN conjunct1, rule_format, of 1500 20]
  note region = inst[THEN conjunct2, THEN conjunct2, THEN conjunct2, THEN conjunct2, THEN conjunct2,
      THEN conjunct2, THEN conjunct2, THEN conjunct2, THEN conjunct2, THEN conjunct2, THEN conjunct2,
      THEN conjunct2, THEN conjunct1, rule_format]
  note uniq = inst[THEN conjunct2, THEN conjunct2, THEN conjunct2, THEN conjunct2, THEN conjunct2,
      THEN conjunct2, THEN conjunct2, THEN conjunct2, THEN conjunct2, THEN conjunct2, THEN conjunct2,
      THEN conjunct2, THEN conjunct2, rule_format, of 1 0 1500 20 0 0]
  have a: "1500 < width (output_image init_original) \<and> 20 < height (output_image init_original)"
    "1500 < width (output_image (init_v1 example_paths)) \<and> 20 < height (output_image (init_v1 example_paths))"
    by (simp_all add: canvas_original canvas_v1 GRID_SIZE_def GRID_ROWS_def GRID_COLS_def TILE_SIZE_def)
  have i: "in_cell 1 0 1500 20" by (simp add: in_cell_def TILE_SIZE_def)
  from cover a(1) have b: "\<exists>col row. col < GRID_SIZE \<and> row < GRID_SIZE \<and> in_cell col row 1500 20"
    by (rule iffD1)
  from cover1 a(2) have c: "\<exists>row col. 1 \<le> row \<and> row \<le> GRID_ROWS \<and> 1 \<le> col \<and> col \<le> GRID_COLS
         \<and> in_cell (col - 1) (row - 1) 1500 20"
    by (rule iffD1)
  have d: "\<not> in_cell 0 0 1500 20"
  proof
    assume "in_cell 0 0 1500 20"
    from uniq[OF i this] show False by simp
  qed
  have nm: "tile_num ?s0 \<notin> set MISSING_TILES" by (simp add: MISSING_TILES_def)
  have l: "path_lookup ?d (str (tile_num ?s0) @ ''.jpg'') = Some (Decodable white_tile)"
    by (simp add: one_tile_world_simps path_lookup_def str_more_examples)
  have load: "load_tile_original nearest ?d 0 1 ?s0
      = Inr (white_tile, ?s0\<lparr>tiles_processed := tiles_processed ?s0 + 1\<rparr>)"
    by (rule load_tile_original_fitting[OF nm l white_tile_simps(1)])
  from cell_original_paste[OF load]
  obtain st' where step: "cell_original nearest ?d 0 1 ?s0 = Inr st'" by blast
  from pasted[OF step] load
  have o: "output_image st' = paste (output_image ?s0) white_tile (0 * TILE_SIZE, 1 * TILE_SIZE)"
    by auto
  have black0: "px (output_image ?s0) 20 1500 = black"
    by (simp add: init_original_def Image_new_def)
  have "px (output_image st') 20 1500 = white"
    unfolding o region[OF white_tile_simps(1)]
    by (simp add: in_cell_def TILE_SIZE_def white_tile_simps init_original_def Image_new_def
        OUTPUT_SIZE_def GRID_SIZE_def)
  with step have e: "\<exists>st'. cell_original nearest ?d 0 1 ?s0 = Inr st'
         \<and> px (output_image st') 20 1500 = white" by blast
  have l1: "path_lookup ?d (str 2 @ ''-'' @ str 2 @ ''.png'') = Some (Decodable white_tile)"
    by (simp add: one_tile_world_simps path_lookup_def str_more_examples)
  from cell_v1_decodable[OF l1, of nearest "init_v1 example_paths"]
  obtain s1 where step1: "cell_v1 nearest ?d 2 2 (init_v1 example_paths) = Inr s1" by blast
  from pasted1[OF step1] have o1: "output_image s1 =
      paste (output_image (init_v1 example_paths)) white_tile ((2 - 1) * TILE_SIZE, (2 - 1) * TILE_SIZE)"
    unfolding l1 by (simp add: white_tile_simps)
  have black1: "px (output_image (init_v1 example_paths)) 1500 1500 = black"
    by (rule init_v1_simps)
  have "px (output_image s1) 1500 1500 = white"
    unfolding o1 region[OF white_tile_simps(1)]
    by (simp add: in_cell_def TILE_SIZE_def white_tile_simps init_v1_def Image_new_def
        ASSEMBLED_SIZE_def GRID_COLS_def)
  with step1 have f: "\<exists>st'. cell_v1 nearest ?d 2 2 (init_v1 example_paths) = Inr st'
         \<and> px (output_image st') 1500 1500 = white" by blast
  from a(1) i b c d black0 e black1 f show ?thesis by simp
qed

end
